theory Spec2Isabelle
  imports Main "HOL-Library.Word"
begin

unbundle bit_operations_syntax

section \<open>The coverage bitmap bridge of lua.c\<close>

text \<open>
  The fuzzing code at the head of \<^verbatim>\<open>lua.c\<close> keeps three globals: the pointer
  \<^verbatim>\<open>__shmem\<close> to a region of \<^verbatim>\<open>SHM_SIZE\<close> bytes (a 32-bit header
  \<^verbatim>\<open>num_edges\<close> followed by the flexible array \<^verbatim>\<open>edges[]\<close>, which therefore has
  \<^verbatim>\<open>SHM_SIZE - 4\<close> bytes), and the two ends \<^verbatim>\<open>__edges_start\<close>, \<^verbatim>\<open>__edges_stop\<close>
  of the guard table of the instrumented binary.  The guard table is a list of 32-bit
  words; the array \<^verbatim>\<open>edges[]\<close> is a function from byte index to byte, and every
  access states its bound, because C gives no meaning to an access outside the region.
\<close>

type_synonym byte = "8 word"

definition SHM_SIZE :: nat where
  "SHM_SIZE = 0x100000"

definition MAX_EDGES :: nat where
  "MAX_EDGES = (SHM_SIZE - 4) * 8"

record shmem_data =
  num_edges :: "32 word"
  edges :: "nat \<Rightarrow> byte"

text \<open>Where \<^verbatim>\<open>__shmem\<close> points.\<close>

datatype shmem_ptr = Null | Malloced | Mapped int

text \<open>
  How a run of the process ends when it does not go on: \<^verbatim>\<open>return EXIT_FAILURE\<close>
  out of \<^verbatim>\<open>do_Fuzzing\<close> (which \<^verbatim>\<open>main\<close> returns), \<^verbatim>\<open>_exit(-1)\<close>, or a load or
  store outside the object it addresses, which is undefined behaviour in C.
\<close>

datatype exit = Exit_failure | Exit_minus1 | Memory_fault

text \<open>
  \<^verbatim>\<open>for (uint32_t *x = __edges_start; x < __edges_stop && N < MAX_EDGES; x++) *x = ++N;\<close>
  with \<^verbatim>\<open>uint64_t N\<close>: the loop walks the table and stops at its end or when the
  counter reaches \<^verbatim>\<open>MAX_EDGES\<close>; the store truncates the counter to 32 bits.
\<close>

fun reset_loop :: "64 word \<Rightarrow> 32 word list \<Rightarrow> 32 word list" where
  "reset_loop N [] = []"
| "reset_loop N (x # xs) =
     (if N < word_of_nat MAX_EDGES then ucast (N + 1) # reset_loop (N + 1) xs else x # xs)"

definition sanitizer_cov_reset_edgeguards :: "32 word list \<Rightarrow> 32 word list" where
  "sanitizer_cov_reset_edgeguards gs = reset_loop 0 gs"

text \<open>
  \<^verbatim>\<open>__sanitizer_cov_trace_pc_guard(guard)\<close> on the guard's value and the region
  \<^verbatim>\<open>__shmem\<close> points to; it returns the guard's new value and the region.  The byte
  \<^verbatim>\<open>edges[index / 8]\<close> lies at offset \<^verbatim>\<open>4 + index / 8\<close> of the region.
\<close>

definition edge_offset :: "32 word \<Rightarrow> nat" where
  "edge_offset index = 4 + unat index div 8"

definition sanitizer_cov_trace_pc_guard ::
  "32 word \<Rightarrow> shmem_data \<Rightarrow> exit + (32 word \<times> shmem_data)" where
  "sanitizer_cov_trace_pc_guard guard sh =
     (let index = guard in
      if index = 0 then Inr (guard, sh)
      else if SHM_SIZE \<le> edge_offset index then Inl Memory_fault
      else Inr (0, sh\<lparr>edges := (edges sh)
                  (unat index div 8 := edges sh (unat index div 8) OR push_bit (unat index mod 8) 1)\<rparr>))"

text \<open>The same call on the guard at position \<open>i\<close> of the table.\<close>

definition trace_guard_at ::
  "nat \<Rightarrow> 32 word list \<times> shmem_data \<Rightarrow> exit + (32 word list \<times> shmem_data)" where
  "trace_guard_at i c =
     (if length (fst c) \<le> i then Inl Memory_fault
      else case sanitizer_cov_trace_pc_guard (fst c ! i) (snd c) of
        Inl e \<Rightarrow> Inl e
      | Inr (g, sh) \<Rightarrow> Inr ((fst c)[i := g], sh))"

text \<open>
  What \<^verbatim>\<open>__sanitizer_cov_trace_pc_guard_init\<close> asks of its surroundings: the value
  of the environment variable \<^verbatim>\<open>SHM_ID\<close>, the descriptor \<^verbatim>\<open>shm_open\<close> returns for a
  key, the region \<^verbatim>\<open>mmap\<close> maps for a descriptor (\<open>None\<close> for \<^verbatim>\<open>MAP_FAILED\<close>), and
  the block \<^verbatim>\<open>malloc(SHM_SIZE)\<close> hands out, whose contents are whatever the allocator
  left there.  The source does not test the pointer \<^verbatim>\<open>malloc\<close> returns, and the
  allocation is taken to succeed.
\<close>

record cov_env =
  getenv_SHM_ID :: "string option"
  shm_open :: "string \<Rightarrow> int"
  mmap :: "int \<Rightarrow> shmem_data option"
  malloc_SHM_SIZE :: shmem_data

text \<open>
  The globals: \<open>edges_range\<close> is \<open>None\<close> while \<^verbatim>\<open>__edges_start\<close> and
  \<^verbatim>\<open>__edges_stop\<close> are \<^verbatim>\<open>NULL\<close>, and holds the guards between them afterwards.
\<close>

record cov_state =
  edges_range :: "32 word list option"
  shmem_at :: shmem_ptr
  shmem :: shmem_data

text \<open>
  The tail of the initialisation, common to both ways of getting the region:
  the guards are reset and the header receives \<^verbatim>\<open>stop - start\<close>.
\<close>

definition cov_init_finish :: "32 word list \<Rightarrow> shmem_ptr \<Rightarrow> shmem_data \<Rightarrow> cov_state" where
  "cov_init_finish gs p sh =
     \<lparr>edges_range = Some (sanitizer_cov_reset_edgeguards gs),
      shmem_at = p,
      shmem = sh\<lparr>num_edges := word_of_nat (length gs)\<rparr>\<rparr>"

text \<open>
  \<^verbatim>\<open>__sanitizer_cov_trace_pc_guard_init(start, stop)\<close>, on the guards \<open>gs\<close> between
  \<^verbatim>\<open>start\<close> and \<^verbatim>\<open>stop\<close>.  The texts it prints are left out; with \<^verbatim>\<open>SHM_ID\<close>
  absent the closing \<^verbatim>\<open>printf\<close> is handed the null key for \<^verbatim>\<open>%s\<close>, which the C
  libraries the harness runs on print as \<^verbatim>\<open>(null)\<close>.
\<close>

definition sanitizer_cov_trace_pc_guard_init ::
  "cov_env \<Rightarrow> 32 word list \<Rightarrow> cov_state \<Rightarrow> exit + cov_state" where
  "sanitizer_cov_trace_pc_guard_init env gs st =
     (if gs = [] \<or> hd gs \<noteq> 0 then Inr st
      else if edges_range st \<noteq> None then Inl Exit_minus1
      else case getenv_SHM_ID env of
        None \<Rightarrow> Inr (cov_init_finish gs Malloced (malloc_SHM_SIZE env))
      | Some shm_key \<Rightarrow>
          (let fd = shm_open env shm_key in
           if fd \<le> - 1 then Inl Exit_minus1
           else case mmap env fd of
             None \<Rightarrow> Inl Exit_minus1
           | Some sh \<Rightarrow> Inr (cov_init_finish gs (Mapped fd) sh)))"

section \<open>The persistent fuzzing loop of lua.c\<close>

subsection \<open>Descriptors, trace and world\<close>

text \<open>
  What the next \<^verbatim>\<open>read\<close> on a descriptor meets: bytes that have arrived, the end
  of the stream, or an error.  A \<^verbatim>\<open>read\<close> of \<open>n\<close> bytes returns at most \<open>n\<close> bytes
  of the first chunk and leaves the rest of it pending, so the chunk boundaries are the
  partial reads the caller sees.  A stream with nothing pending is at its end.
\<close>

datatype chunk = Data "byte list" | Eof | Err

fun take_chunk :: "chunk list \<Rightarrow> nat \<Rightarrow> int \<times> byte list \<times> chunk list" where
  "take_chunk [] n = (0, [], [])"
| "take_chunk (Eof # cs) n = (0, [], cs)"
| "take_chunk (Err # cs) n = (- 1, [], cs)"
| "take_chunk (Data bs # cs) n =
     (if length bs \<le> n then (int (length bs), bs, cs)
      else (int n, take n bs, Data (drop n bs) # cs))"

text \<open>
  \<^verbatim>\<open>read(fd, buf, count)\<close>.  POSIX leaves a count above \<^verbatim>\<open>SSIZE_MAX\<close> to the
  implementation; Linux refuses it, since no buffer of that size lies in the address
  space, and returns \<open>-1\<close> without taking a byte.
\<close>

definition SSIZE_MAX :: nat where
  "SSIZE_MAX = 0x7FFFFFFFFFFFFFFF"

definition sys_read :: "chunk list \<Rightarrow> nat \<Rightarrow> int \<times> byte list \<times> chunk list" where
  "sys_read cs count = (if SSIZE_MAX < count then (- 1, [], cs) else take_chunk cs count)"

text \<open>The calls of the loop that its surroundings can observe, in the order made.\<close>

datatype event =
    Write_cwfd "byte list" int
  | Stdout string
  | Stderr string
  | Fflush_stdout
  | Fflush_stderr
  | LuaL_newstate
  | Lua_close
  | Reset_edgeguards

text \<open>
  The world of the process: what is pending on \<^verbatim>\<open>REPRL_CRFD\<close> (100) and
  \<^verbatim>\<open>REPRL_DRFD\<close> (102), the values the coming calls of \<^verbatim>\<open>write\<close> on
  \<^verbatim>\<open>REPRL_CWFD\<close> (101) return, the guard table, the number of interpreter states
  that are alive, the trace, and for every size whether \<^verbatim>\<open>malloc\<close> of that many
  bytes returns \<^verbatim>\<open>NULL\<close>.
\<close>

record world =
  crfd :: "chunk list"
  drfd :: "chunk list"
  cwfd :: "int list"
  edge_guards :: "32 word list"
  lua_states :: nat
  trace :: "event list"
  malloc_null :: "nat \<Rightarrow> bool"

definition log :: "event \<Rightarrow> world \<Rightarrow> world" where
  "log e w = w\<lparr>trace := trace w @ [e]\<rparr>"

definition read_crfd :: "nat \<Rightarrow> world \<Rightarrow> (int \<times> byte list) \<times> world" where
  "read_crfd n w = (case sys_read (crfd w) n of (rv, bs, cs) \<Rightarrow> ((rv, bs), w\<lparr>crfd := cs\<rparr>))"

definition read_drfd :: "nat \<Rightarrow> world \<Rightarrow> (int \<times> byte list) \<times> world" where
  "read_drfd n w = (case sys_read (drfd w) n of (rv, bs, cs) \<Rightarrow> ((rv, bs), w\<lparr>drfd := cs\<rparr>))"

definition write_cwfd :: "byte list \<Rightarrow> world \<Rightarrow> int \<times> world" where
  "write_cwfd buf w =
     (case cwfd w of
        [] \<Rightarrow> (- 1, log (Write_cwfd buf (- 1)) w)
      | rv # rs \<Rightarrow> (rv, log (Write_cwfd buf rv) (w\<lparr>cwfd := rs\<rparr>)))"

text \<open>The value the next \<^verbatim>\<open>write\<close> on \<^verbatim>\<open>REPRL_CWFD\<close> returns.\<close>

definition next_write :: "world \<Rightarrow> int" where
  "next_write w = (case cwfd w of [] \<Rightarrow> - 1 | rv # rs \<Rightarrow> rv)"

text \<open>
  The macro \<^verbatim>\<open>CHECK(cond)\<close>: when the condition fails, its text goes to
  \<^verbatim>\<open>stderr\<close> between double quotes and the process ends with \<^verbatim>\<open>_exit(-1)\<close>.
\<close>

definition CHECK_text :: "string \<Rightarrow> string" where
  "CHECK_text cond = CHR 0x22 # cond @ CHR 0x22 # '' failed\<newline>''"

definition CHECK :: "string \<Rightarrow> bool \<Rightarrow> world \<Rightarrow> (exit \<times> world) + world" where
  "CHECK cond holds w =
     (if holds then Inr w else Inl (Exit_minus1, log (Stderr (CHECK_text cond)) w))"

text \<open>
  Integers cross the descriptors in the byte order of the machine; the harness runs on
  little-endian machines, where the first byte is the lowest.
\<close>

fun le_nat :: "byte list \<Rightarrow> nat" where
  "le_nat [] = 0"
| "le_nat (b # bs) = unat b + 256 * le_nat bs"

definition le_bytes :: "32 word \<Rightarrow> byte list" where
  "le_bytes v = [ucast v, ucast (drop_bit 8 v), ucast (drop_bit 16 v), ucast (drop_bit 24 v)]"

subsection \<open>Handshake\<close>

definition HELO :: "byte list" where
  "HELO = [0x48, 0x45, 0x4C, 0x4F]"

text \<open>
  Lines 752 to 761.  The bytes read land in the array that held the greeting, so a
  short read leaves the tail of the greeting in place.
\<close>

definition do_Fuzzing_helo :: "world \<Rightarrow> (exit \<times> world) + world" where
  "do_Fuzzing_helo w =
     (case write_cwfd HELO w of (wr, w1) \<Rightarrow>
        if wr \<noteq> 4
        then Inl (Exit_failure, log (Stdout ''Invalid HELO response from parent\<newline>'') w1)
        else case read_crfd 4 w1 of ((rd, bs), w2) \<Rightarrow>
          if rd \<noteq> 4
          then Inl (Exit_failure, log (Stdout ''Invalid HELO response from parent\<newline>'') w2)
          else if take 4 (bs @ drop (length bs) HELO) \<noteq> HELO
          then Inl (Exit_minus1, log (Stdout ''Invalid response from parent\<newline>'') w2)
          else Inr w2)"

subsection \<open>Receiving the script\<close>

text \<open>The multi-character constant \<^verbatim>\<open>'cexe'\<close>.\<close>

definition cexe :: "32 word" where
  "cexe = 0x63657865"

text \<open>
  The buffer that \<^verbatim>\<open>malloc(script_size + 1)\<close> followed by \<^verbatim>\<open>memset\<close> to zero
  gives when the allocation succeeds: the sum is taken in \<^verbatim>\<open>size_t\<close>, 64 bits wide.
\<close>

definition alloc_script :: "64 word \<Rightarrow> byte list" where
  "alloc_script script_size = replicate (unat (script_size + 1)) 0"

definition store :: "byte list \<Rightarrow> nat \<Rightarrow> byte list \<Rightarrow> byte list" where
  "store buf off bs = take off buf @ bs @ drop (off + length bs) buf"

text \<open>
  The loop of lines 782 to 790, with \<open>off\<close> for \<^verbatim>\<open>ptr - script_src\<close>.  Bytes that
  \<^verbatim>\<open>read\<close> would store past the end of the buffer are a memory fault.
\<close>

function read_script ::
  "byte list \<Rightarrow> nat \<Rightarrow> nat \<Rightarrow> world \<Rightarrow> (exit \<times> world) + (byte list \<times> world)" where
  "read_script buf off remaining w =
     (if remaining > 0 then
        (case read_drfd remaining w of ((rv, bs), w1) \<Rightarrow>
           if rv \<le> 0 then Inl (Exit_minus1, log (Stderr ''Failed to load script\<newline>'') w1)
           else if length buf < off + length bs then Inl (Memory_fault, w1)
           else read_script (store buf off bs) (off + nat rv) (remaining - nat rv) w1)
      else Inr (buf, w))"
  by pat_completeness auto
termination
  by (relation "measure (\<lambda>(buf, off, remaining, w). remaining)") auto

declare read_script.simps [simp del]

text \<open>
  Lines 778 to 791: allocate, fill, terminate.  The source does not test the pointer
  \<^verbatim>\<open>malloc\<close> returns: when it is \<^verbatim>\<open>NULL\<close> and the size is not 0, \<^verbatim>\<open>memset\<close>
  stores through the null pointer.
\<close>

definition load_script :: "64 word \<Rightarrow> world \<Rightarrow> (exit \<times> world) + (byte list \<times> world)" where
  "load_script script_size w =
     (if malloc_null w (unat (script_size + 1)) \<and> 0 < unat (script_size + 1)
      then Inl (Memory_fault, w)
      else case read_script (alloc_script script_size) 0 (unat script_size) w of
        Inl e \<Rightarrow> Inl e
      | Inr (buf, w1) \<Rightarrow>
          if length buf \<le> unat script_size then Inl (Memory_fault, w1)
          else Inr (buf[unat script_size := 0], w1))"

text \<open>
  Lines 768 to 776: the action and the declared length of the script.  The number in
  the text for an unknown action is not rendered.
\<close>

definition read_request :: "world \<Rightarrow> (exit \<times> world) + (64 word \<times> world)" where
  "read_request w =
     (case read_crfd 4 w of ((rv, bs), w1) \<Rightarrow>
        case CHECK ''read(REPRL_CRFD, &action, 4) == 4'' (rv = 4) w1 of
          Inl e \<Rightarrow> Inl e
        | Inr w2 \<Rightarrow>
            let action = (word_of_nat (le_nat bs) :: 32 word) in
            if action = cexe then
              (case read_crfd 8 w2 of ((rv8, bs8), w3) \<Rightarrow>
                 case CHECK ''read(REPRL_CRFD, &script_size, 8) == 8'' (rv8 = 8) w3 of
                   Inl e \<Rightarrow> Inl e
                 | Inr w4 \<Rightarrow> Inr (word_of_nat (le_nat bs8), w4))
            else Inl (Exit_minus1, log (Stderr ''Unknown action: '') w2))"

text \<open>Lines 768 to 791.\<close>

definition receive_script :: "world \<Rightarrow> (exit \<times> world) + (byte list \<times> world)" where
  "receive_script w =
     (case read_request w of
        Inl e \<Rightarrow> Inl e
      | Inr (script_size, w1) \<Rightarrow> load_script script_size w1)"

subsection \<open>The interpreter library and the chunk runners\<close>

text \<open>
  The Lua library is called, never looked into.  What the harness needs of it, and of
  the environment of the process, is gathered in a record: whether \<^verbatim>\<open>luaL_newstate\<close>
  returns \<^verbatim>\<open>NULL\<close>; the status \<^verbatim>\<open>luaL_loadbuffer\<close> and \<^verbatim>\<open>luaL_loadfile\<close>
  return together with the message they leave on the stack when the status is not
  \<^verbatim>\<open>LUA_OK\<close>; for a loaded chunk, the status of \<^verbatim>\<open>lua_pcall\<close> under the message
  handler, the message it leaves when that status is not \<^verbatim>\<open>LUA_OK\<close>, and the text
  the chunk prints on \<^verbatim>\<open>stdout\<close> while it runs; and \<^verbatim>\<open>getenv\<close>.  Registering
  \<^verbatim>\<open>test_crash\<close>, opening the libraries, building the table \<^verbatim>\<open>arg\<close> and choosing
  the collector act inside the interpreter state only.  A chunk that never returns, or
  that ends the process from inside, is not a result of \<^verbatim>\<open>lua_pcall\<close>.  The hits
  of instrumented edges while the library runs are calls of
  \<^verbatim>\<open>__sanitizer_cov_trace_pc_guard\<close>, modelled in the first section; they are not
  replayed in the world below, where they could only zero guards that the reset at the
  end of the iteration numbers again.
\<close>

datatype chunk_src = Buffer "byte list" string | File "byte list"

record lua_lib =
  luaL_newstate_null :: bool
  luaL_loadbuffer :: "byte list \<Rightarrow> string \<Rightarrow> 32 word \<times> string"
  luaL_loadfile :: "byte list \<Rightarrow> 32 word \<times> string"
  lua_pcall :: "chunk_src \<Rightarrow> 32 word \<times> string \<times> string"
  getenv :: "string \<Rightarrow> byte list option"

text \<open>
  Modelled from the spec: \<^verbatim>\<open>LUA_OK\<close> is declared in \<^verbatim>\<open>lua.h\<close>, which is not
  among the sources; the spec gives 0 for a payload that completes without error.
\<close>

definition LUA_OK :: "32 word" where
  "LUA_OK = 0"

text \<open>\<^verbatim>\<open>LUA_PROGNAME\<close>, the value of \<^verbatim>\<open>progname\<close> on the path of \<^verbatim>\<open>do_Fuzzing\<close>.\<close>

definition progname :: string where
  "progname = ''lua''"

definition l_message :: "string option \<Rightarrow> string \<Rightarrow> world \<Rightarrow> world" where
  "l_message pname msg w =
     log (Stderr (msg @ ''\<newline>''))
       (case pname of None \<Rightarrow> w | Some p \<Rightarrow> log (Stderr (p @ '': '')) w)"

text \<open>
  \<^verbatim>\<open>report(L, status)\<close>, with the message on top of the stack as an argument; the
  status it returns is the one it is given.
\<close>

definition report :: "32 word \<Rightarrow> string \<Rightarrow> world \<Rightarrow> world" where
  "report status msg w = (if status \<noteq> LUA_OK then l_message (Some progname) msg w else w)"

text \<open>
  \<^verbatim>\<open>dochunk\<close> on the outcome of a load: the chunk is called with no arguments and
  no results (\<^verbatim>\<open>docall(L, 0, 0)\<close>) when it loaded, and the final status is reported.
\<close>

definition dochunk ::
  "lua_lib \<Rightarrow> chunk_src \<Rightarrow> 32 word \<times> string \<Rightarrow> world \<Rightarrow> 32 word \<times> world" where
  "dochunk lua src loaded w =
     (case loaded of (status, msg) \<Rightarrow>
        if status = LUA_OK then
          (case lua_pcall lua src of (status', msg', printed) \<Rightarrow>
             (status', report status' msg' (log (Stdout printed) w)))
        else (status, report status msg w))"

text \<open>\<^verbatim>\<open>strlen\<close>: the bytes before the first zero byte.\<close>

definition strlen_prefix :: "byte list \<Rightarrow> byte list" where
  "strlen_prefix s = takeWhile (\<lambda>b. b \<noteq> 0) s"

definition dostring :: "lua_lib \<Rightarrow> byte list \<Rightarrow> string \<Rightarrow> world \<Rightarrow> 32 word \<times> world" where
  "dostring lua s name w =
     dochunk lua (Buffer (strlen_prefix s) name) (luaL_loadbuffer lua (strlen_prefix s) name) w"

definition dofile :: "lua_lib \<Rightarrow> byte list \<Rightarrow> world \<Rightarrow> 32 word \<times> world" where
  "dofile lua name w = dochunk lua (File name) (luaL_loadfile lua name) w"

text \<open>
  \<^verbatim>\<open>handle_luainit\<close>.  \<^verbatim>\<open>LUA_INITVARVERSION\<close> is \<^verbatim>\<open>LUA_INIT\<close> followed by
  \<^verbatim>\<open>LUA_VERSUFFIX\<close> of \<^verbatim>\<open>lua.h\<close>, which for Lua 5.4 is \<^verbatim>\<open>_5_4\<close>.
\<close>

definition handle_luainit :: "lua_lib \<Rightarrow> world \<Rightarrow> 32 word \<times> world" where
  "handle_luainit lua w =
     (let (name, init) =
            (case getenv lua ''LUA_INIT_5_4'' of
               Some v \<Rightarrow> (''=LUA_INIT_5_4'', Some v)
             | None \<Rightarrow> (''=LUA_INIT'', getenv lua ''LUA_INIT''))
      in case init of
           None \<Rightarrow> (LUA_OK, w)
         | Some [] \<Rightarrow> dostring lua [] name w
         | Some (c # cs) \<Rightarrow> if c = 0x40 then dofile lua cs w else dostring lua (c # cs) name w)"

text \<open>
  \<^verbatim>\<open>l_print\<close> on the values of the stack, each as \<^verbatim>\<open>print\<close> renders it: with
  no value on the stack it does nothing, otherwise \<^verbatim>\<open>print\<close> writes them on one
  line, a tab between two.
\<close>

fun tabbed :: "string list \<Rightarrow> string" where
  "tabbed [] = []"
| "tabbed [v] = v"
| "tabbed (v # vs) = v @ CHR 0x09 # tabbed vs"

definition l_print :: "string list \<Rightarrow> world \<Rightarrow> world" where
  "l_print vals w = (if length vals > 0 then log (Stdout (tabbed vals @ ''\<newline>'')) w else w)"

subsection \<open>One iteration, and the loop\<close>

text \<open>
  Lines 793 to 816: a fresh state, the run of \<^verbatim>\<open>LUA_INIT\<close>, the payload, and
  \<^verbatim>\<open>lua_close\<close>.  After \<^verbatim>\<open>dostring\<close> the stack is empty, since the chunk is called
  for no results and \<^verbatim>\<open>report\<close> pops the message.  The failure branch calls
  \<^verbatim>\<open>report(L, status)\<close> with the local \<^verbatim>\<open>status\<close>, which is still 0 there.
\<close>

definition luaL_newstate :: "world \<Rightarrow> world" where
  "luaL_newstate w = (log LuaL_newstate w)\<lparr>lua_states := Suc (lua_states w)\<rparr>"

definition lua_close :: "world \<Rightarrow> world" where
  "lua_close w = (log Lua_close w)\<lparr>lua_states := lua_states w - 1\<rparr>"

definition run_script ::
  "lua_lib \<Rightarrow> string \<Rightarrow> byte list \<Rightarrow> world \<Rightarrow> (exit \<times> world) + (32 word \<times> world)" where
  "run_script lua argv0 script_src w =
     (if luaL_newstate_null lua
      then Inl (Exit_failure, l_message (Some argv0) ''cannot create state: not enough memory'' w)
      else
        case handle_luainit lua (luaL_newstate w) of (init_status, w2) \<Rightarrow>
          if init_status \<noteq> LUA_OK then Inl (Exit_failure, w2)
          else case dostring lua script_src ''chunk'' w2 of (result, w3) \<Rightarrow>
            let status = (0 :: 32 word);
                w4 = (if LUA_OK = result then l_print [] w3 else report status [] w3)
            in Inr (result, lua_close w4))"

text \<open>\<^verbatim>\<open>status = (result & 0xff) << 8\<close>.\<close>

definition status_word :: "32 word \<Rightarrow> 32 word" where
  "status_word result = push_bit 8 (result AND 0xff)"

text \<open>Lines 817 to 821: flush, answer, reset the guards.\<close>

definition send_status :: "32 word \<Rightarrow> world \<Rightarrow> (exit \<times> world) + world" where
  "send_status result w =
     (let status = status_word result;
          w1 = log Fflush_stderr (log Fflush_stdout w)
      in case write_cwfd (le_bytes status) w1 of (wr, w2) \<Rightarrow>
           case CHECK ''write(REPRL_CWFD, &status, 4) == 4'' (wr = 4) w2 of
             Inl e \<Rightarrow> Inl e
           | Inr w3 \<Rightarrow>
               Inr ((log Reset_edgeguards w3)
                      \<lparr>edge_guards := sanitizer_cov_reset_edgeguards (edge_guards w3)\<rparr>))"

text \<open>The body of \<^verbatim>\<open>while(1)\<close>.\<close>

definition fuzz_iteration :: "lua_lib \<Rightarrow> string \<Rightarrow> world \<Rightarrow> (exit \<times> world) + world" where
  "fuzz_iteration lua argv0 w =
     (case receive_script w of
        Inl e \<Rightarrow> Inl e
      | Inr (script_src, w1) \<Rightarrow>
          (case run_script lua argv0 script_src w1 of
             Inl e \<Rightarrow> Inl e
           | Inr (result, w2) \<Rightarrow> send_status result w2))"

subsection \<open>The loop ends on a stream that ends\<close>

text \<open>The bytes still pending on a descriptor.\<close>

fun pending :: "chunk list \<Rightarrow> nat" where
  "pending [] = 0"
| "pending (Data bs # cs) = length bs + pending cs"
| "pending (c # cs) = pending cs"

text \<open>The world a step leaves behind, whichever way it ended.\<close>

definition final :: "(exit \<times> world) + world \<Rightarrow> world" where
  "final r = (case r of Inl (e, w) \<Rightarrow> w | Inr w \<Rightarrow> w)"


text \<open>
  What is left pending on a descriptor after a loop of reads for \<open>n\<close> bytes in all:
  the loop stops when it has the bytes, or at the first read that returns zero or less.
\<close>

fun consumed :: "nat \<Rightarrow> chunk list \<Rightarrow> chunk list" where
  "consumed n [] = []"
| "consumed n (Data bs # cs) =
     (if n = 0 then Data bs # cs
      else if bs = [] then cs
      else if length bs \<le> n then consumed (n - length bs) cs
      else Data (drop n bs) # cs)"
| "consumed n (c # cs) = (if n = 0 then c # cs else cs)"

lemma take_chunk_length:
  "take_chunk cs n = (rv, bs, cs') \<Longrightarrow> 0 < rv \<Longrightarrow> int (length bs) = rv \<and> length bs \<le> n"
  by (induction cs n rule: take_chunk.induct) (auto split: if_splits)

lemma take_chunk_pending:
  "take_chunk cs n = (rv, bs, cs') \<Longrightarrow> 0 < rv \<Longrightarrow> pending cs' + nat rv = pending cs"
  by (induction cs n rule: take_chunk.induct) (auto split: if_splits)

lemma sys_read_length:
  "sys_read cs n = (rv, bs, cs') \<Longrightarrow> 0 < rv \<Longrightarrow> int (length bs) = rv \<and> length bs \<le> n"
  by (auto simp: sys_read_def split: if_splits dest: take_chunk_length)

lemma sys_read_pending:
  "sys_read cs n = (rv, bs, cs') \<Longrightarrow> 0 < rv \<Longrightarrow> pending cs' + nat rv = pending cs"
  by (auto simp: sys_read_def split: if_splits dest: take_chunk_pending)

lemma crfd_log [simp]: "crfd (log e w) = crfd w"
  by (simp add: log_def)

lemma crfd_read_drfd: "read_drfd n w = (r, w1) \<Longrightarrow> crfd w1 = crfd w"
  by (auto simp: read_drfd_def split: prod.splits)

lemma crfd_read_script:
  "read_script buf off remaining w = Inr (buf', w') \<Longrightarrow> crfd w' = crfd w"
proof (induction buf off remaining w rule: read_script.induct)
  case (1 buf off remaining w)
  show ?case
  proof (cases "remaining > 0")
    case False
    with "1.prems" show ?thesis by (simp add: read_script.simps)
  next
    case True
    obtain rv bs w1 where r: "read_drfd remaining w = ((rv, bs), w1)"
      by (metis prod.exhaust)
    with True "1.prems" have ok: "\<not> rv \<le> 0" "\<not> length buf < off + length bs"
      and rec: "read_script (store buf off bs) (off + nat rv) (remaining - nat rv) w1 = Inr (buf', w')"
      by (auto simp: read_script.simps [of buf off remaining w] split: if_splits)
    from "1.IH" [OF True r [symmetric] refl ok rec] have "crfd w' = crfd w1" .
    with crfd_read_drfd [OF r] show ?thesis by simp
  qed
qed

lemma crfd_load_script: "load_script n w = Inr (buf, w') \<Longrightarrow> crfd w' = crfd w"
  by (auto simp: load_script_def split: sum.splits prod.splits if_splits dest: crfd_read_script)

lemma read_crfd_pending:
  "read_crfd n w = ((rv, bs), w1) \<Longrightarrow> 0 < rv \<Longrightarrow> pending (crfd w1) < pending (crfd w)"
  by (auto simp: read_crfd_def split: prod.splits dest: sys_read_pending)

lemma take_chunk_pending_le:
  "take_chunk cs n = (rv, bs, cs') \<Longrightarrow> pending cs' \<le> pending cs"
  by (induction cs n rule: take_chunk.induct) (auto split: if_splits)

lemma sys_read_pending_le:
  "sys_read cs n = (rv, bs, cs') \<Longrightarrow> pending cs' \<le> pending cs"
  by (auto simp: sys_read_def split: if_splits dest: take_chunk_pending_le)

lemma read_crfd_pending_le:
  "read_crfd n w = ((rv, bs), w1) \<Longrightarrow> pending (crfd w1) \<le> pending (crfd w)"
  by (auto simp: read_crfd_def split: prod.splits dest: sys_read_pending_le)

lemma read_request_pending:
  assumes "read_request w = Inr (n, w')"
  shows "pending (crfd w') < pending (crfd w)"
proof -
  obtain rv bs w1 where r1: "read_crfd 4 w = ((rv, bs), w1)" by (metis prod.exhaust)
  with assms have rv: "rv = 4"
    by (auto simp: read_request_def CHECK_def split: if_splits)
  with r1 have d1: "pending (crfd w1) < pending (crfd w)"
    by (auto dest: read_crfd_pending)
  obtain rv8 bs8 w3 where r2: "read_crfd 8 w1 = ((rv8, bs8), w3)" by (metis prod.exhaust)
  with assms r1 rv have "w' = w3"
    by (auto simp: read_request_def CHECK_def Let_def split: if_splits)
  with read_crfd_pending_le [OF r2] d1 show ?thesis by simp
qed

lemma receive_script_pending:
  "receive_script w = Inr (s, w') \<Longrightarrow> pending (crfd w') < pending (crfd w)"
  by (auto simp: receive_script_def split: sum.splits prod.splits
      dest!: read_request_pending crfd_load_script)

lemma crfd_l_message [simp]: "crfd (l_message p m w) = crfd w"
  by (simp add: l_message_def split: option.splits)

lemma crfd_report [simp]: "crfd (report st m w) = crfd w"
  by (simp add: report_def)

lemma crfd_l_print [simp]: "crfd (l_print vs w) = crfd w"
  by (simp add: l_print_def)

lemma crfd_dochunk [simp]: "crfd (snd (dochunk lua src ld w)) = crfd w"
  by (simp add: dochunk_def split: prod.splits)

lemma crfd_dostring [simp]: "crfd (snd (dostring lua s name w)) = crfd w"
  by (simp add: dostring_def)

lemma crfd_dofile [simp]: "crfd (snd (dofile lua name w)) = crfd w"
  by (simp add: dofile_def)

lemma crfd_handle_luainit [simp]: "crfd (snd (handle_luainit lua w)) = crfd w"
  by (simp add: handle_luainit_def Let_def split: prod.splits option.splits list.splits)

lemma crfd_run_script:
  assumes "run_script lua argv0 s w = Inr (r, w')"
  shows "crfd w' = crfd w"
proof -
  let ?w1 = "luaL_newstate w"
  obtain ist w2 where i: "handle_luainit lua ?w1 = (ist, w2)" by (metis prod.exhaust)
  obtain res w3 where d: "dostring lua s ''chunk'' w2 = (res, w3)" by (metis prod.exhaust)
  from i have "crfd w2 = crfd ?w1" using crfd_handle_luainit [of lua ?w1] by simp
  moreover from d have "crfd w3 = crfd w2" using crfd_dostring [of lua s "''chunk''" w2] by simp
  moreover from assms i d have "crfd w' = crfd w3"
    by (auto simp: run_script_def lua_close_def Let_def split: if_splits)
  ultimately show ?thesis by (simp add: luaL_newstate_def)
qed

lemma crfd_send_status: "send_status r w = Inr w' \<Longrightarrow> crfd w' = crfd w"
  by (auto simp: send_status_def Let_def CHECK_def write_cwfd_def split: prod.splits sum.splits if_splits list.splits)

lemma fuzz_iteration_pending:
  "fuzz_iteration lua argv0 w = Inr w' \<Longrightarrow> pending (crfd w') < pending (crfd w)"
  by (auto simp: fuzz_iteration_def split: sum.splits prod.splits
      dest!: receive_script_pending crfd_run_script crfd_send_status)

text \<open>
  \<^verbatim>\<open>while(1)\<close>: the loop leaves only through an exit of its body.  Every turn that
  goes on has taken the four bytes of the action from \<^verbatim>\<open>REPRL_CRFD\<close>, so on a
  stream that ends the loop ends too, with the exit that met the end.
\<close>

function do_Fuzzing_loop :: "lua_lib \<Rightarrow> string \<Rightarrow> world \<Rightarrow> exit \<times> world" where
  "do_Fuzzing_loop lua argv0 w =
     (case fuzz_iteration lua argv0 w of
        Inl e \<Rightarrow> e
      | Inr w' \<Rightarrow> do_Fuzzing_loop lua argv0 w')"
  by pat_completeness auto
termination
  by (relation "measure (\<lambda>(lua, argv0, w). pending (crfd w))")
     (auto dest: fuzz_iteration_pending)

declare do_Fuzzing_loop.simps [simp del]

text \<open>\<^verbatim>\<open>do_Fuzzing\<close>: the handshake, then the loop.\<close>

definition do_Fuzzing :: "lua_lib \<Rightarrow> string \<Rightarrow> world \<Rightarrow> exit \<times> world" where
  "do_Fuzzing lua argv0 w =
     (case do_Fuzzing_helo w of
        Inl e \<Rightarrow> e
      | Inr w1 \<Rightarrow> do_Fuzzing_loop lua argv0 w1)"

subsection \<open>An interpreter and a request for the examples\<close>

text \<open>
  The payload \<^verbatim>\<open>error("boom")\<close>, thirteen bytes, and an interpreter library that
  runs it as Lua does: the chunk loads, and its call ends with the status 2
  (\<^verbatim>\<open>LUA_ERRRUN\<close>) and a message.  A lone opening parenthesis does not load (status
  3, \<^verbatim>\<open>LUA_ERRSYNTAX\<close>); every other chunk loads and runs without error.  No
  \<^verbatim>\<open>LUA_INIT\<close> is set.
\<close>

definition boom :: "byte list" where
  "boom = [0x65, 0x72, 0x72, 0x6F, 0x72, 0x28, 0x22, 0x62, 0x6F, 0x6F, 0x6D, 0x22, 0x29]"

definition lua_example :: lua_lib where
  "lua_example =
     \<lparr>luaL_newstate_null = False,
      luaL_loadbuffer = (\<lambda>s name. if s = [0x28] then (3, ''unexpected symbol'') else (0, [])),
      luaL_loadfile = (\<lambda>name. (0, [])),
      lua_pcall = (\<lambda>src. if src = Buffer boom ''chunk'' then (2, ''boom'', []) else (0, [], [])),
      getenv = (\<lambda>name. None)\<rparr>"

text \<open>
  A request for that payload: the tag, the length 13 in eight bytes, and the payload
  arriving on the data descriptor in two pieces; the next write will return 4.
\<close>

definition request_boom :: world where
  "request_boom =
     \<lparr>crfd = [Data [0x65, 0x78, 0x65, 0x63, 13, 0, 0, 0, 0, 0, 0, 0]],
      drfd = [Data (take 5 boom), Data (drop 5 boom)],
      cwfd = [4], edge_guards = [0, 5], lua_states = 0, trace = [],
      malloc_null = (\<lambda>n. False)\<rparr>"

text \<open>A request that declares the length 0, with bytes of a later request already waiting.\<close>

definition request_empty :: world where
  "request_empty =
     \<lparr>crfd = [Data [0x65, 0x78, 0x65, 0x63, 0, 0, 0, 0, 0, 0, 0, 0]],
      drfd = [Data [0x78]],
      cwfd = [4], edge_guards = [0, 5], lua_states = 0, trace = [],
      malloc_null = (\<lambda>n. False)\<rparr>"

text \<open>
  Two requests one after the other: the failing payload and then the length 0, and the
  other way round.  Two writes will return 4.
\<close>

definition requests_boom_empty :: world where
  "requests_boom_empty =
     \<lparr>crfd = [Data [0x65, 0x78, 0x65, 0x63, 13, 0, 0, 0, 0, 0, 0, 0],
              Data [0x65, 0x78, 0x65, 0x63, 0, 0, 0, 0, 0, 0, 0, 0]],
      drfd = [Data (take 5 boom), Data (drop 5 boom)],
      cwfd = [4, 4], edge_guards = [0, 5], lua_states = 0, trace = [],
      malloc_null = (\<lambda>n. False)\<rparr>"

definition requests_empty_boom :: world where
  "requests_empty_boom =
     \<lparr>crfd = [Data [0x65, 0x78, 0x65, 0x63, 0, 0, 0, 0, 0, 0, 0, 0,
                    0x65, 0x78, 0x65, 0x63, 13, 0, 0, 0, 0, 0, 0, 0]],
      drfd = [Data boom],
      cwfd = [4, 4], edge_guards = [0, 5], lua_states = 0, trace = [],
      malloc_null = (\<lambda>n. False)\<rparr>"

section \<open>Properties of the coverage bridge\<close>

lemma MAX_EDGES_val: "MAX_EDGES = 8388576"
  by (simp add: MAX_EDGES_def SHM_SIZE_def)

lemma less_MAX_EDGES_iff: "(N :: 64 word) < word_of_nat MAX_EDGES \<longleftrightarrow> unat N < MAX_EDGES"
  by (simp add: MAX_EDGES_val word_less_nat_alt)

lemma unat_Suc_below: "unat (N :: 64 word) < MAX_EDGES \<Longrightarrow> unat (N + 1) = Suc (unat N)"
  by (simp add: MAX_EDGES_val unat_word_ariths)

lemma reset_loop_length: "length (reset_loop N gs) = length gs"
  by (induction gs arbitrary: N) auto

lemma reset_loop_nth:
  "unat N + k < MAX_EDGES \<Longrightarrow> k < length gs \<Longrightarrow>
   reset_loop N gs ! k = word_of_nat (unat N + k + 1)"
proof (induction gs arbitrary: N k)
  case Nil
  then show ?case by simp
next
  case (Cons x xs)
  from Cons.prems have below: "unat N < MAX_EDGES" by simp
  show ?case
  proof (cases k)
    case 0
    have "(ucast (N + 1) :: 32 word) = word_of_nat (unat (N + 1))"
      by simp
    with 0 below show ?thesis
      by (simp add: less_MAX_EDGES_iff unat_Suc_below)
  next
    case (Suc j)
    with Cons.prems below have "unat (N + 1) + j < MAX_EDGES" and "j < length xs"
      by (simp_all add: unat_Suc_below)
    then have "reset_loop (N + 1) xs ! j = word_of_nat (unat (N + 1) + j + 1)"
      by (rule Cons.IH)
    with Suc below show ?thesis
      by (simp add: less_MAX_EDGES_iff unat_Suc_below)
  qed
qed

lemma reset_loop_beyond:
  "MAX_EDGES \<le> unat N + k \<Longrightarrow> k < length gs \<Longrightarrow> reset_loop N gs ! k = gs ! k"
proof (induction gs arbitrary: N k)
  case Nil
  then show ?case by simp
next
  case (Cons x xs)
  show ?case
  proof (cases "unat N < MAX_EDGES")
    case False
    then show ?thesis by (simp add: less_MAX_EDGES_iff)
  next
    case True
    with Cons.prems obtain j where k: "k = Suc j" by (cases k) auto
    with Cons.prems True have "MAX_EDGES \<le> unat (N + 1) + j" and "j < length xs"
      by (simp_all add: unat_Suc_below)
    then have "reset_loop (N + 1) xs ! j = xs ! j" by (rule Cons.IH)
    with k True show ?thesis by (simp add: less_MAX_EDGES_iff)
  qed
qed

lemma reset_loop_idem: "reset_loop N (reset_loop N gs) = reset_loop N gs"
  by (induction gs arbitrary: N) auto

lemma reset_edgeguards_length:
  "length (sanitizer_cov_reset_edgeguards gs) = length gs"
  by (simp add: sanitizer_cov_reset_edgeguards_def reset_loop_length)

lemma reset_edgeguards_nth:
  "k < length gs \<Longrightarrow> k < MAX_EDGES \<Longrightarrow>
   sanitizer_cov_reset_edgeguards gs ! k = word_of_nat (Suc k)"
  using reset_loop_nth [of 0 k gs] by (simp add: sanitizer_cov_reset_edgeguards_def)

lemma unat_index: "k < MAX_EDGES \<Longrightarrow> unat (word_of_nat (Suc k) :: 32 word) = Suc k"
  unfolding unat_of_nat by (simp add: MAX_EDGES_val)

text \<open>
  C4.  Resetting twice gives the assignment of resetting once.  That assignment keeps
  the length of the table, numbers the first \<open>min (length gs) MAX_EDGES\<close> guards
  1, 2, 3, ... in order, and does not touch a guard from position \<open>MAX_EDGES\<close> on:
  such a guard is 0 in the table of the loaded binary, nothing but the reset stores a
  value other than 0 in a guard, and so it is left at 0.
\<close>

theorem reset_edgeguards_idempotent:
  "sanitizer_cov_reset_edgeguards (sanitizer_cov_reset_edgeguards gs) = sanitizer_cov_reset_edgeguards gs
   \<and> length (sanitizer_cov_reset_edgeguards gs) = length gs
   \<and> (\<forall>k. k < min (length gs) MAX_EDGES \<longrightarrow> unat (sanitizer_cov_reset_edgeguards gs ! k) = k + 1)
   \<and> (\<forall>k. MAX_EDGES \<le> k \<and> k < length gs \<longrightarrow> sanitizer_cov_reset_edgeguards gs ! k = gs ! k)"
proof (intro conjI allI impI)
  show "sanitizer_cov_reset_edgeguards (sanitizer_cov_reset_edgeguards gs) = sanitizer_cov_reset_edgeguards gs"
    by (simp add: sanitizer_cov_reset_edgeguards_def reset_loop_idem)
  show "length (sanitizer_cov_reset_edgeguards gs) = length gs"
    by (rule reset_edgeguards_length)
next
  fix k assume "k < min (length gs) MAX_EDGES"
  then have "k < length gs" and "k < MAX_EDGES" by simp_all
  then have "sanitizer_cov_reset_edgeguards gs ! k = word_of_nat (Suc k)"
    by (rule reset_edgeguards_nth)
  moreover from \<open>k < MAX_EDGES\<close> have "unat (word_of_nat (Suc k) :: 32 word) = Suc k"
    by (rule unat_index)
  ultimately show "unat (sanitizer_cov_reset_edgeguards gs ! k) = k + 1"
    by (simp only: Suc_eq_plus1)
next
  fix k assume "MAX_EDGES \<le> k \<and> k < length gs"
  then show "sanitizer_cov_reset_edgeguards gs ! k = gs ! k"
    using reset_loop_beyond [of 0 k gs] by (simp add: sanitizer_cov_reset_edgeguards_def)
qed

theorem reset_edgeguards_idempotent_witness:
  "sanitizer_cov_reset_edgeguards (sanitizer_cov_reset_edgeguards (replicate 8388580 0)) =
     sanitizer_cov_reset_edgeguards (replicate 8388580 0)
   \<and> length (sanitizer_cov_reset_edgeguards (replicate 8388580 0)) = 8388580
   \<and> unat (sanitizer_cov_reset_edgeguards (replicate 8388580 0) ! 0) = 1
   \<and> unat (sanitizer_cov_reset_edgeguards (replicate 8388580 0) ! 8388575) = 8388576
   \<and> sanitizer_cov_reset_edgeguards (replicate 8388580 0) ! 8388576 = 0"
proof -
  note t = reset_edgeguards_idempotent [of "replicate 8388580 0"]
  from t have a: "\<forall>k. k < min (length (replicate 8388580 (0::32 word))) MAX_EDGES \<longrightarrow>
      unat (sanitizer_cov_reset_edgeguards (replicate 8388580 0) ! k) = k + 1"
    by blast
  from t have b: "\<forall>k. MAX_EDGES \<le> k \<and> k < length (replicate 8388580 (0::32 word)) \<longrightarrow>
      sanitizer_cov_reset_edgeguards (replicate 8388580 0) ! k = replicate 8388580 0 ! k"
    by blast
  from a [rule_format, of 0] have a0: "unat (sanitizer_cov_reset_edgeguards (replicate 8388580 0) ! 0) = 1"
    by (simp add: MAX_EDGES_val)
  from a [rule_format, of 8388575] have a1:
    "unat (sanitizer_cov_reset_edgeguards (replicate 8388580 0) ! 8388575) = 8388576"
    by (simp add: MAX_EDGES_val)
  from b [rule_format, of 8388576] have b1:
    "sanitizer_cov_reset_edgeguards (replicate 8388580 0) ! 8388576 = 0"
    by (simp add: MAX_EDGES_val)
  from t a0 a1 b1 show ?thesis by simp
qed

lemma SHM_SIZE_val: "SHM_SIZE = 1048576"
  by (simp add: SHM_SIZE_def)

lemma edge_offset_inside: "unat index < MAX_EDGES \<Longrightarrow> edge_offset index < SHM_SIZE"
  by (simp add: edge_offset_def MAX_EDGES_val SHM_SIZE_val)

lemma edge_offset_MAX_EDGES: "edge_offset (word_of_nat MAX_EDGES) = SHM_SIZE"
  by (simp add: edge_offset_def MAX_EDGES_val SHM_SIZE_val)

lemma reset_full_table_last:
  "sanitizer_cov_reset_edgeguards (replicate MAX_EDGES 0) ! (MAX_EDGES - 1) = word_of_nat MAX_EDGES"
  using reset_edgeguards_nth [of "MAX_EDGES - 1" "replicate MAX_EDGES 0"]
  by (simp add: MAX_EDGES_val)

text \<open>
  C9.  On a table of \<open>MAX_EDGES\<close> guards the reset gives the last guard the index
  \<open>MAX_EDGES\<close>, and the byte that a hit on this guard addresses,
  \<^verbatim>\<open>edges[MAX_EDGES / 8]\<close>, lies at offset \<open>SHM_SIZE\<close> of the region: one byte past
  its end.  Every smaller index stays inside (\<open>edge_offset_inside\<close>).
\<close>

theorem last_index_outside_region:
  "sanitizer_cov_reset_edgeguards (replicate MAX_EDGES 0) ! (MAX_EDGES - 1) = word_of_nat MAX_EDGES
   \<and> edge_offset (sanitizer_cov_reset_edgeguards (replicate MAX_EDGES 0) ! (MAX_EDGES - 1)) = SHM_SIZE
   \<and> \<not> edge_offset (sanitizer_cov_reset_edgeguards (replicate MAX_EDGES 0) ! (MAX_EDGES - 1)) < SHM_SIZE"
proof -
  have last: "sanitizer_cov_reset_edgeguards (replicate MAX_EDGES 0) ! (MAX_EDGES - 1) =
              word_of_nat MAX_EDGES"
    by (rule reset_full_table_last)
  have at: "edge_offset (sanitizer_cov_reset_edgeguards (replicate MAX_EDGES 0) ! (MAX_EDGES - 1)) =
            SHM_SIZE"
    by (simp only: last edge_offset_MAX_EDGES)
  from last at show ?thesis by simp
qed

text \<open>
  C2.  After a reset of a table of \<open>MAX_EDGES\<close> guards, the first hit on the last
  guard stores outside the region instead of setting a bit of it.  For every guard whose
  index is below \<open>MAX_EDGES\<close> the first hit sets the bit of the index and zeroes the
  guard (\<open>first_hit_inside\<close>, \<open>hit_sets_one_bit\<close>), and a hit on a zeroed guard
  changes nothing (\<open>second_hit_noop\<close>).
\<close>

theorem last_guard_hit_faults:
  "trace_guard_at (MAX_EDGES - 1) (sanitizer_cov_reset_edgeguards (replicate MAX_EDGES 0), sh)
   = Inl Memory_fault"
proof -
  have "sanitizer_cov_trace_pc_guard (word_of_nat MAX_EDGES :: 32 word) sh = Inl Memory_fault"
    by (simp add: sanitizer_cov_trace_pc_guard_def edge_offset_def MAX_EDGES_val SHM_SIZE_val)
  moreover have "(length (sanitizer_cov_reset_edgeguards (replicate MAX_EDGES (0 :: 32 word)))
      \<le> MAX_EDGES - 1) = False"
    by (simp add: reset_edgeguards_length MAX_EDGES_val)
  ultimately show ?thesis
    by (simp only: trace_guard_at_def fst_conv snd_conv reset_full_table_last if_False sum.case)
qed

lemma first_hit_inside:
  assumes "i < length gs" and "Suc i < MAX_EDGES"
  shows "trace_guard_at i (sanitizer_cov_reset_edgeguards gs, sh) =
         Inr ((sanitizer_cov_reset_edgeguards gs)[i := 0],
              sh\<lparr>edges := (edges sh)
                 (Suc i div 8 := edges sh (Suc i div 8) OR push_bit (Suc i mod 8) 1)\<rparr>)"
proof -
  from assms have g: "sanitizer_cov_reset_edgeguards gs ! i = word_of_nat (Suc i)"
    by (simp add: reset_edgeguards_nth)
  from assms have u: "unat (word_of_nat (Suc i) :: 32 word) = Suc i"
    by (simp add: unat_index del: of_nat_Suc)
  then have nz: "(word_of_nat (Suc i) :: 32 word) \<noteq> 0"
    by (metis Zero_not_Suc unat_0)
  from u assms have inside: "edge_offset (word_of_nat (Suc i)) < SHM_SIZE"
    by (simp add: edge_offset_inside del: of_nat_Suc)
  have "sanitizer_cov_trace_pc_guard (word_of_nat (Suc i)) sh =
        Inr (0, sh\<lparr>edges := (edges sh)
                 (Suc i div 8 := edges sh (Suc i div 8) OR push_bit (Suc i mod 8) 1)\<rparr>)"
    using nz inside u
    by (simp add: sanitizer_cov_trace_pc_guard_def Let_def del: of_nat_Suc)
  with g assms show ?thesis
    by (simp add: trace_guard_at_def reset_edgeguards_length del: of_nat_Suc)
qed

lemma hit_sets_one_bit:
  "k < 8 \<Longrightarrow> bit ((b :: byte) OR push_bit k 1) j \<longleftrightarrow> bit b j \<or> j = k"
  by (auto simp: bit_or_iff bit_exp_iff possible_bit_word)

lemma second_hit_noop:
  "i < length gs \<Longrightarrow> gs ! i = 0 \<Longrightarrow> trace_guard_at i (gs, sh) = Inr (gs, sh)"
  by (simp add: trace_guard_at_def sanitizer_cov_trace_pc_guard_def list_update_same_conv)

text \<open>
  C8.  For a guard range that is not empty and whose first guard is still 0, registered
  while no range is registered yet, and with \<^verbatim>\<open>SHM_ID\<close> absent from the environment,
  the initialisation returns (it does not exit): \<^verbatim>\<open>__shmem\<close> is the block of
  \<^verbatim>\<open>malloc\<close>, its header holds the number of guards \<^verbatim>\<open>stop - start\<close>, its bytes
  are as the allocator left them, and the guards are reset.
\<close>

theorem cov_init_heap_fallback:
  assumes "gs \<noteq> []" and "hd gs = 0" and "edges_range st = None"
    and "getenv_SHM_ID env = None"
  shows "sanitizer_cov_trace_pc_guard_init env gs st =
           Inr \<lparr>edges_range = Some (sanitizer_cov_reset_edgeguards gs),
                shmem_at = Malloced,
                shmem = \<lparr>num_edges = word_of_nat (length gs),
                         edges = edges (malloc_SHM_SIZE env)\<rparr>\<rparr>"
  using assms
  by (simp add: sanitizer_cov_trace_pc_guard_init_def cov_init_finish_def)

theorem cov_init_heap_fallback_witness:
  "sanitizer_cov_trace_pc_guard_init
     \<lparr>getenv_SHM_ID = None, shm_open = (\<lambda>k. - 1), mmap = (\<lambda>fd. None),
      malloc_SHM_SIZE = \<lparr>num_edges = 77, edges = (\<lambda>i. 0)\<rparr>\<rparr>
     [0, 0, 0]
     \<lparr>edges_range = None, shmem_at = Null, shmem = \<lparr>num_edges = 0, edges = (\<lambda>i. 0)\<rparr>\<rparr>
   = Inr \<lparr>edges_range = Some [1, 2, 3], shmem_at = Malloced,
          shmem = \<lparr>num_edges = 3, edges = (\<lambda>i. 0)\<rparr>\<rparr>"
  using cov_init_heap_fallback [of "[0, 0, 0]"
      "\<lparr>edges_range = None, shmem_at = Null, shmem = \<lparr>num_edges = 0, edges = (\<lambda>i. 0)\<rparr>\<rparr>"
      "\<lparr>getenv_SHM_ID = None, shm_open = (\<lambda>k. - 1), mmap = (\<lambda>fd. None),
      malloc_SHM_SIZE = \<lparr>num_edges = 77, edges = (\<lambda>i. 0)\<rparr>\<rparr>"]
  by (simp add: sanitizer_cov_reset_edgeguards_def MAX_EDGES_val)

section \<open>Properties of the handshake and the transport\<close>

lemma read_crfd_length:
  "read_crfd n w = ((rv, bs), w1) \<Longrightarrow> 0 < rv \<Longrightarrow> int (length bs) = rv"
  by (auto simp: read_crfd_def split: prod.splits dest: sys_read_length)

lemma write_cwfd_next:
  "write_cwfd buf w =
   (next_write w, w\<lparr>cwfd := tl (cwfd w), trace := trace w @ [Write_cwfd buf (next_write w)]\<rparr>)"
  by (simp add: write_cwfd_def next_write_def log_def split: list.splits)

lemma read_crfd_sys_read:
  "read_crfd n w =
   ((fst (sys_read (crfd w) n), fst (snd (sys_read (crfd w) n))),
    w\<lparr>crfd := snd (snd (sys_read (crfd w) n))\<rparr>)"
  by (simp add: read_crfd_def split: prod.splits)

lemma overlay_read:
  "sys_read cs 4 = (4, bs, cs') \<Longrightarrow> take 4 (bs @ drop (length bs) HELO) = bs"
  by (auto dest: sys_read_length)

text \<open>
  C5.  The handshake of \<^verbatim>\<open>do_Fuzzing\<close>, outcome and world.  It hands the four bytes
  of the greeting to \<^verbatim>\<open>write\<close> on \<^verbatim>\<open>REPRL_CWFD\<close>; when that returns 4 it asks
  \<^verbatim>\<open>REPRL_CRFD\<close> for four bytes.  It goes on exactly when the write returned 4,
  the read returned 4 and the bytes read are those of the greeting sent.  A short write
  (after which nothing is read) or a short read ends the process through
  \<^verbatim>\<open>return EXIT_FAILURE\<close>, four other bytes through \<^verbatim>\<open>_exit(-1)\<close>; no outcome goes
  on with the loop otherwise.
\<close>

theorem handshake_iff:
  "do_Fuzzing_helo w =
     (if next_write w \<noteq> 4 then
        Inl (Exit_failure,
             w\<lparr>cwfd := tl (cwfd w),
               trace := trace w @ [Write_cwfd HELO (next_write w),
                                   Stdout ''Invalid HELO response from parent\<newline>'']\<rparr>)
      else if fst (sys_read (crfd w) 4) \<noteq> 4 then
        Inl (Exit_failure,
             w\<lparr>crfd := snd (snd (sys_read (crfd w) 4)), cwfd := tl (cwfd w),
               trace := trace w @ [Write_cwfd HELO 4,
                                   Stdout ''Invalid HELO response from parent\<newline>'']\<rparr>)
      else if fst (snd (sys_read (crfd w) 4)) \<noteq> HELO then
        Inl (Exit_minus1,
             w\<lparr>crfd := snd (snd (sys_read (crfd w) 4)), cwfd := tl (cwfd w),
               trace := trace w @ [Write_cwfd HELO 4,
                                   Stdout ''Invalid response from parent\<newline>'']\<rparr>)
      else
        Inr (w\<lparr>crfd := snd (snd (sys_read (crfd w) 4)), cwfd := tl (cwfd w),
               trace := trace w @ [Write_cwfd HELO 4]\<rparr>))
   \<and> ((\<exists>w'. do_Fuzzing_helo w = Inr w') =
        (next_write w = 4 \<and> fst (sys_read (crfd w) 4) = 4
         \<and> fst (snd (sys_read (crfd w) 4)) = HELO))"
proof -
  obtain rd bs cs where r: "sys_read (crfd w) 4 = (rd, bs, cs)"
    by (metis prod.exhaust)
  have same: "rd = 4 \<Longrightarrow> take 4 (bs @ drop (length bs) HELO) = bs"
    using r by (auto dest: overlay_read)
  have eq: "do_Fuzzing_helo w =
     (if next_write w \<noteq> 4 then
        Inl (Exit_failure,
             w\<lparr>cwfd := tl (cwfd w),
               trace := trace w @ [Write_cwfd HELO (next_write w),
                                   Stdout ''Invalid HELO response from parent\<newline>'']\<rparr>)
      else if rd \<noteq> 4 then
        Inl (Exit_failure,
             w\<lparr>crfd := cs, cwfd := tl (cwfd w),
               trace := trace w @ [Write_cwfd HELO 4,
                                   Stdout ''Invalid HELO response from parent\<newline>'']\<rparr>)
      else if bs \<noteq> HELO then
        Inl (Exit_minus1,
             w\<lparr>crfd := cs, cwfd := tl (cwfd w),
               trace := trace w @ [Write_cwfd HELO 4,
                                   Stdout ''Invalid response from parent\<newline>'']\<rparr>)
      else
        Inr (w\<lparr>crfd := cs, cwfd := tl (cwfd w), trace := trace w @ [Write_cwfd HELO 4]\<rparr>))"
    using same
    by (simp add: do_Fuzzing_helo_def write_cwfd_next read_crfd_sys_read r log_def)
  then have iff: "(\<exists>w'. do_Fuzzing_helo w = Inr w') = (next_write w = 4 \<and> rd = 4 \<and> bs = HELO)"
    by auto
  from eq iff show ?thesis by (simp add: r)
qed

theorem handshake_iff_witness:
  "do_Fuzzing_helo
     \<lparr>crfd = [Data [0x48, 0x45, 0x4C, 0x4F, 0x65], Data [0x78]], drfd = [], cwfd = [4, 4],
      edge_guards = [], lua_states = 0, trace = [], malloc_null = (\<lambda>n. False)\<rparr>
   = Inr \<lparr>crfd = [Data [0x65], Data [0x78]], drfd = [], cwfd = [4], edge_guards = [],
          lua_states = 0, trace = [Write_cwfd [0x48, 0x45, 0x4C, 0x4F] 4],
          malloc_null = (\<lambda>n. False)\<rparr>
   \<and> do_Fuzzing_helo
     \<lparr>crfd = [Data [0x48, 0x45, 0x4C, 0x50]], drfd = [], cwfd = [4],
      edge_guards = [], lua_states = 0, trace = [], malloc_null = (\<lambda>n. False)\<rparr>
   = Inl (Exit_minus1,
       \<lparr>crfd = [], drfd = [], cwfd = [], edge_guards = [], lua_states = 0,
        trace = [Write_cwfd [0x48, 0x45, 0x4C, 0x4F] 4,
                 Stdout ''Invalid response from parent\<newline>''],
        malloc_null = (\<lambda>n. False)\<rparr>)
   \<and> do_Fuzzing_helo
     \<lparr>crfd = [Data [0x48, 0x45], Data [0x4C, 0x4F]], drfd = [], cwfd = [4],
      edge_guards = [], lua_states = 0, trace = [], malloc_null = (\<lambda>n. False)\<rparr>
   = Inl (Exit_failure,
       \<lparr>crfd = [Data [0x4C, 0x4F]], drfd = [], cwfd = [], edge_guards = [], lua_states = 0,
        trace = [Write_cwfd [0x48, 0x45, 0x4C, 0x4F] 4,
                 Stdout ''Invalid HELO response from parent\<newline>''],
        malloc_null = (\<lambda>n. False)\<rparr>)"
proof -
  have r1: "sys_read [Data [0x48, 0x45, 0x4C, 0x4F, 0x65], Data [0x78]] 4 =
            (4, [0x48, 0x45, 0x4C, 0x4F], [Data [0x65], Data [0x78]])"
    by (simp add: sys_read_def SSIZE_MAX_def)
  have r2: "sys_read [Data [0x48, 0x45, 0x4C, 0x50]] 4 = (4, [0x48, 0x45, 0x4C, 0x50], [])"
    by (simp add: sys_read_def SSIZE_MAX_def)
  have r3: "sys_read [Data [0x48, 0x45], Data [0x4C, 0x4F]] 4 = (2, [0x48, 0x45], [Data [0x4C, 0x4F]])"
    by (simp add: sys_read_def SSIZE_MAX_def)
  note h1 = handshake_iff [of "\<lparr>crfd = [Data [0x48, 0x45, 0x4C, 0x4F, 0x65], Data [0x78]],
      drfd = [], cwfd = [4, 4], edge_guards = [], lua_states = 0, trace = [],
      malloc_null = (\<lambda>n. False)\<rparr>", THEN conjunct1]
  note h2 = handshake_iff [of "\<lparr>crfd = [Data [0x48, 0x45, 0x4C, 0x50]], drfd = [], cwfd = [4],
      edge_guards = [], lua_states = 0, trace = [], malloc_null = (\<lambda>n. False)\<rparr>",
      THEN conjunct1]
  note h3 = handshake_iff [of "\<lparr>crfd = [Data [0x48, 0x45], Data [0x4C, 0x4F]], drfd = [],
      cwfd = [4], edge_guards = [], lua_states = 0, trace = [],
      malloc_null = (\<lambda>n. False)\<rparr>", THEN conjunct1]
  from h1 h2 h3 show ?thesis
    by (simp add: r1 r2 r3 next_write_def HELO_def)
qed



lemma consumed_0 [simp]: "consumed 0 cs = cs"
  by (induction "0 :: nat" cs rule: consumed.induct) auto





lemma store_nothing [simp]: "store buf off [] = buf"
  by (simp add: store_def)








section \<open>Properties of an iteration\<close>

lemma l_message_trace:
  "l_message p m w =
   w\<lparr>trace := trace w @ (case p of None \<Rightarrow> [] | Some q \<Rightarrow> [Stderr (q @ '': '')])
                  @ [Stderr (m @ ''\<newline>'')]\<rparr>"
  by (simp add: l_message_def log_def split: option.splits)

lemma report_trace:
  "report st m w =
   w\<lparr>trace := trace w @ (if st \<noteq> LUA_OK
                          then [Stderr (progname @ '': ''), Stderr (m @ ''\<newline>'')] else [])\<rparr>"
  by (simp add: report_def l_message_trace)

lemma dochunk_frame: "\<exists>evs. snd (dochunk lua src ld w) = w\<lparr>trace := trace w @ evs\<rparr>"
  by (auto simp: dochunk_def report_trace log_def split: prod.splits)

lemma dostring_frame: "\<exists>evs. snd (dostring lua s name w) = w\<lparr>trace := trace w @ evs\<rparr>"
  by (simp add: dostring_def dochunk_frame)

lemma dofile_frame: "\<exists>evs. snd (dofile lua name w) = w\<lparr>trace := trace w @ evs\<rparr>"
  by (simp add: dofile_def dochunk_frame)

lemma handle_luainit_frame: "\<exists>evs. snd (handle_luainit lua w) = w\<lparr>trace := trace w @ evs\<rparr>"
proof -
  have "w = w\<lparr>trace := trace w @ []\<rparr>" by simp
  then have "\<exists>evs. w = w\<lparr>trace := trace w @ evs\<rparr>" by blast
  then show ?thesis
    by (simp add: handle_luainit_def Let_def dostring_frame dofile_frame
        split: prod.splits option.splits list.splits)
qed

lemma read_script_frame:
  "read_script buf off remaining w = Inr (buf', w') \<Longrightarrow> w' = w\<lparr>drfd := drfd w'\<rparr>"
proof (induction buf off remaining w rule: read_script.induct)
  case (1 buf off remaining w)
  show ?case
  proof (cases "remaining > 0")
    case False
    with "1.prems" show ?thesis by (simp add: read_script.simps [of buf off 0 w])
  next
    case True
    obtain rv bs w1 where r: "read_drfd remaining w = ((rv, bs), w1)"
      by (metis prod.exhaust)
    with True "1.prems" have ok: "\<not> rv \<le> 0" "\<not> length buf < off + length bs"
      and rec: "read_script (store buf off bs) (off + nat rv) (remaining - nat rv) w1 = Inr (buf', w')"
      by (auto simp: read_script.simps [of buf off remaining w] split: if_splits)
    from "1.IH" [OF True r [symmetric] refl ok rec] have "w' = w1\<lparr>drfd := drfd w'\<rparr>" .
    moreover from r have "w1 = w\<lparr>drfd := drfd w1\<rparr>"
      by (auto simp: read_drfd_def split: prod.splits)
    ultimately show ?thesis
      by (metis world.surjective world.update_convs(2))
  qed
qed

lemma load_script_frame:
  "load_script n w = Inr (buf, w') \<Longrightarrow> w' = w\<lparr>drfd := drfd w'\<rparr>"
  by (auto simp: load_script_def split: sum.splits prod.splits if_splits dest: read_script_frame)

lemma read_request_frame:
  "read_request w = Inr (n, w') \<Longrightarrow> w' = w\<lparr>crfd := crfd w'\<rparr>"
  by (auto simp: read_request_def read_crfd_def CHECK_def Let_def split: prod.splits if_splits)

lemma receive_script_frame:
  assumes "receive_script w = Inr (s, w')"
  shows "w' = w\<lparr>crfd := crfd w', drfd := drfd w'\<rparr>"
proof -
  from assms obtain n w1 where a: "read_request w = Inr (n, w1)" and b: "load_script n w1 = Inr (s, w')"
    by (auto simp: receive_script_def split: sum.splits prod.splits)
  from read_request_frame [OF a] load_script_frame [OF b] show ?thesis
    by (metis world.surjective world.update_convs(1) world.update_convs(2))
qed


lemma send_status_result:
  "send_status result w =
   (if next_write w = 4
    then Inr (w\<lparr>cwfd := tl (cwfd w),
               edge_guards := sanitizer_cov_reset_edgeguards (edge_guards w),
               trace := trace w @ [Fflush_stdout, Fflush_stderr,
                  Write_cwfd (le_bytes (status_word result)) 4, Reset_edgeguards]\<rparr>)
    else Inl (Exit_minus1,
           w\<lparr>cwfd := tl (cwfd w),
             trace := trace w @ [Fflush_stdout, Fflush_stderr,
                  Write_cwfd (le_bytes (status_word result)) (next_write w),
                  Stderr (CHECK_text ''write(REPRL_CWFD, &status, 4) == 4'')]\<rparr>))"
  by (simp add: send_status_def Let_def write_cwfd_next CHECK_def log_def next_write_def)

lemma after_dostring:
  "(if LUA_OK = result then l_print [] w else report 0 [] w) = w"
  by (simp add: l_print_def report_def LUA_OK_def)

lemma iteration_after_run:
  assumes rs: "receive_script w = Inr (script, w1)"
    and ns: "\<not> luaL_newstate_null lua"
    and init: "handle_luainit lua (luaL_newstate w1) = (LUA_OK, w2)"
    and run: "dostring lua script ''chunk'' w2 = (result, w3)"
  shows "fuzz_iteration lua argv0 w = send_status result (lua_close w3)"
    and "lua_states w3 = Suc (lua_states w)"
    and "cwfd w3 = cwfd w"
    and "edge_guards w3 = edge_guards w"
    and "drfd w3 = drfd w1"
proof -
  show "fuzz_iteration lua argv0 w = send_status result (lua_close w3)"
    using rs ns init run
    by (simp add: fuzz_iteration_def run_script_def Let_def after_dostring)
  from receive_script_frame [OF rs] have f1: "w1 = w\<lparr>crfd := crfd w1, drfd := drfd w1\<rparr>" .
  from handle_luainit_frame [of lua "luaL_newstate w1"] init
  obtain e2 where f2: "w2 = (luaL_newstate w1)\<lparr>trace := trace (luaL_newstate w1) @ e2\<rparr>"
    by auto
  from dostring_frame [of lua script "''chunk''" w2] run
  obtain e3 where f3: "w3 = w2\<lparr>trace := trace w2 @ e3\<rparr>"
    by auto
  have "lua_states w1 = lua_states w" "cwfd w1 = cwfd w" "edge_guards w1 = edge_guards w"
    by (subst f1, simp)+
  moreover have "lua_states w2 = Suc (lua_states w1)" "cwfd w2 = cwfd w1"
    "edge_guards w2 = edge_guards w1" "drfd w2 = drfd w1"
    by (subst f2, simp add: luaL_newstate_def log_def)+
  moreover have "lua_states w3 = lua_states w2" "cwfd w3 = cwfd w2"
    "edge_guards w3 = edge_guards w2" "drfd w3 = drfd w2"
    by (subst f3, simp)+
  ultimately show "lua_states w3 = Suc (lua_states w)" "cwfd w3 = cwfd w"
    "edge_guards w3 = edge_guards w" "drfd w3 = drfd w1"
    by simp_all
qed

lemma next_write_lua_close: "cwfd w3 = cwfd w \<Longrightarrow> next_write (lua_close w3) = next_write w"
  by (simp add: next_write_def lua_close_def log_def)

lemma iteration_outcome:
  assumes "receive_script w = Inr (script, w1)"
    and "\<not> luaL_newstate_null lua"
    and "handle_luainit lua (luaL_newstate w1) = (LUA_OK, w2)"
    and "dostring lua script ''chunk'' w2 = (result, w3)"
  shows "trace (final (fuzz_iteration lua argv0 w)) =
           trace w3 @ [Lua_close, Fflush_stdout, Fflush_stderr,
                       Write_cwfd (le_bytes (status_word result)) (next_write w)]
                    @ (if next_write w = 4 then [Reset_edgeguards] else [Stderr (CHECK_text ''write(REPRL_CWFD, &status, 4) == 4'')])
       \<and> lua_states (final (fuzz_iteration lua argv0 w)) = lua_states w
       \<and> (if next_write w = 4
          then fuzz_iteration lua argv0 w = Inr (final (fuzz_iteration lua argv0 w))
             \<and> edge_guards (final (fuzz_iteration lua argv0 w)) =
                 sanitizer_cov_reset_edgeguards (edge_guards w)
          else fuzz_iteration lua argv0 w = Inl (Exit_minus1, final (fuzz_iteration lua argv0 w)))"
proof -
  note it = iteration_after_run [OF assms]
  have nw: "next_write (lua_close w3) = next_write w"
    using it(3) by (rule next_write_lua_close)
  show ?thesis
    by (simp add: it(1) send_status_result nw final_def)
       (simp add: lua_close_def log_def it(2) it(4))
qed

lemma example_receive:
  "receive_script request_boom = Inr (boom @ [0], request_boom\<lparr>crfd := [], drfd := []\<rparr>)"
  by (simp add: request_boom_def boom_def receive_script_def read_request_def read_crfd_def
      CHECK_def cexe_def load_script_def alloc_script_def read_drfd_def store_def
      read_script.simps sys_read_def SSIZE_MAX_def)

lemma example_newstate: "\<not> luaL_newstate_null lua_example"
  by (simp add: lua_example_def)

lemma example_init: "handle_luainit lua_example w = (LUA_OK, w)"
  by (simp add: handle_luainit_def lua_example_def)

lemma example_run:
  "dostring lua_example (boom @ [0]) ''chunk'' w =
   (2, w\<lparr>trace := trace w @ [Stdout [], Stderr ''lua: '', Stderr ''boom\<newline>'']\<rparr>)"
  by (simp add: dostring_def dochunk_def strlen_prefix_def boom_def lua_example_def LUA_OK_def
      report_trace progname_def log_def)

lemma status_word_bytes: "le_bytes (status_word result) = [0, ucast result, 0, 0]"
proof -
  have m: "(0xff :: 32 word) = mask 8"
    by (simp add: mask_eq_exp_minus_1)
  have a: "(ucast (push_bit 8 (result AND 0xff)) :: byte) = 0"
    unfolding m by (rule bit_word_eqI) (auto simp: bit_simps)
  have b: "(ucast (drop_bit 8 (push_bit 8 (result AND 0xff))) :: byte) = ucast result"
    unfolding m by (rule bit_word_eqI) (auto simp: bit_simps)
  have c: "(ucast (drop_bit 16 (push_bit 8 (result AND 0xff))) :: byte) = 0"
    unfolding m by (rule bit_word_eqI) (auto simp: bit_simps)
  have d: "(ucast (drop_bit 24 (push_bit 8 (result AND 0xff))) :: byte) = 0"
    unfolding m by (rule bit_word_eqI) (auto simp: bit_simps)
  show ?thesis
    by (simp only: le_bytes_def status_word_def a b c d)
qed

text \<open>
  C6.  In an iteration that reaches the run of the payload (the script was received, the
  state was created, \<^verbatim>\<open>LUA_INIT\<close> ran without error), whatever status \<open>result\<close>
  the payload ends with: after the events of the payload come \<^verbatim>\<open>lua_close\<close>, the
  two flushes, and the write of the status word, in this order; when the write returns 4
  the guards are reset next and the iteration goes on, otherwise the process exits.
  Either way as many interpreter states are alive afterwards as before the iteration.
\<close>

theorem teardown_before_status:
  assumes "receive_script w = Inr (script, w1)"
    and "\<not> luaL_newstate_null lua"
    and "handle_luainit lua (luaL_newstate w1) = (LUA_OK, w2)"
    and "dostring lua script ''chunk'' w2 = (result, w3)"
  shows "trace (final (fuzz_iteration lua argv0 w)) =
           trace w3 @ [Lua_close, Fflush_stdout, Fflush_stderr,
                       Write_cwfd (le_bytes (status_word result)) (next_write w)]
                    @ (if next_write w = 4 then [Reset_edgeguards] else [Stderr (CHECK_text ''write(REPRL_CWFD, &status, 4) == 4'')])
       \<and> lua_states (final (fuzz_iteration lua argv0 w)) = lua_states w
       \<and> (if next_write w = 4
          then fuzz_iteration lua argv0 w = Inr (final (fuzz_iteration lua argv0 w))
             \<and> edge_guards (final (fuzz_iteration lua argv0 w)) =
                 sanitizer_cov_reset_edgeguards (edge_guards w)
          else fuzz_iteration lua argv0 w = Inl (Exit_minus1, final (fuzz_iteration lua argv0 w)))"
proof -
  note it = iteration_after_run [OF assms]
  have nw: "next_write (lua_close w3) = next_write w"
    using it(3) by (rule next_write_lua_close)
  show ?thesis
    by (simp add: it(1) send_status_result nw final_def)
       (simp add: lua_close_def log_def it(2) it(4))
qed

theorem teardown_before_status_witness:
  "trace (final (fuzz_iteration lua_example ''lua'' request_boom)) =
     [LuaL_newstate, Stdout [], Stderr ''lua: '', Stderr ''boom\<newline>'',
      Lua_close, Fflush_stdout, Fflush_stderr, Write_cwfd [0, 2, 0, 0] 4, Reset_edgeguards]
   \<and> lua_states (final (fuzz_iteration lua_example ''lua'' request_boom)) = 0
   \<and> edge_guards (final (fuzz_iteration lua_example ''lua'' request_boom)) = [1, 2]"
proof -
  have nw: "next_write request_boom = 4"
    by (simp add: next_write_def request_boom_def)
  have g: "sanitizer_cov_reset_edgeguards (edge_guards request_boom) = [1, 2]"
    by (simp add: request_boom_def sanitizer_cov_reset_edgeguards_def MAX_EDGES_val)
  from teardown_before_status [OF example_receive example_newstate example_init example_run,
      of "''lua''"]
  show ?thesis
    by (simp add: nw g status_word_bytes)
       (simp add: luaL_newstate_def log_def request_boom_def)
qed

lemma ucast_status_zero_iff: "((ucast (result :: 32 word) :: byte) = 0) = (result AND 0xff = 0)"
proof -
  have m: "(0xff :: 32 word) = mask 8"
    by (simp add: mask_eq_exp_minus_1)
  have "((ucast result :: byte) = 0) = (\<forall>n < 8. \<not> bit result n)"
    by (force simp: bit_eq_iff bit_simps)
  moreover have "(result AND mask 8 = 0) = (\<forall>n < 8. \<not> bit result n)"
    apply (auto simp: bit_eq_iff bit_simps)
    subgoal for n by (erule allE [of _ n]) simp
    done
  ultimately show ?thesis
    unfolding m by simp
qed

lemma ucast_small_nonzero:
  "0 < unat (result :: 32 word) \<Longrightarrow> unat result < 256 \<Longrightarrow> (ucast result :: byte) \<noteq> 0"
proof -
  assume p: "0 < unat result" and s: "unat result < 256"
  have "unat (ucast result :: byte) = take_bit 8 (unat result)"
    by (simp add: unsigned_ucast_eq)
  also have "\<dots> = unat result" using s by (simp add: take_bit_eq_mod)
  finally show ?thesis using p by auto
qed

text \<open>
  C1, as the code has it.  In an iteration that reaches the run of the payload, the four
  bytes handed to \<^verbatim>\<open>write\<close> after the flushes are those of
  \<^verbatim>\<open>(result & 0xff) << 8\<close>: the low byte is 0 whatever the status, and the second
  byte holds the low eight bits of the status \<open>result\<close> of the payload, which is 0
  for \<^verbatim>\<open>LUA_OK\<close> and not 0 for every other status below 256.
\<close>

theorem status_word_second_byte:
  assumes "receive_script w = Inr (script, w1)"
    and "\<not> luaL_newstate_null lua"
    and "handle_luainit lua (luaL_newstate w1) = (LUA_OK, w2)"
    and "dostring lua script ''chunk'' w2 = (result, w3)"
  shows "(\<exists>tail. trace (final (fuzz_iteration lua argv0 w)) =
            trace w3 @ [Lua_close, Fflush_stdout, Fflush_stderr,
                        Write_cwfd [0, ucast result, 0, 0] (next_write w)] @ tail)
       \<and> le_bytes (status_word result) = [0, ucast result, 0, 0]
       \<and> (ucast (status_word result) :: byte) = 0
       \<and> (ucast (drop_bit 8 (status_word result)) :: byte) = ucast result
       \<and> (if result = LUA_OK then (ucast result :: byte) = 0
          else if unat result < 256 then (ucast result :: byte) \<noteq> 0
          else ((ucast result :: byte) = 0) = (result AND 0xff = 0))"
proof -
  from iteration_outcome [OF assms, of argv0]
  have a: "\<exists>tail. trace (final (fuzz_iteration lua argv0 w)) =
            trace w3 @ [Lua_close, Fflush_stdout, Fflush_stderr,
                        Write_cwfd [0, ucast result, 0, 0] (next_write w)] @ tail"
    by (simp add: status_word_bytes)
  have b: "le_bytes (status_word result) = [0, ucast result, 0, 0]"
    by (rule status_word_bytes)
  from b have c: "(ucast (status_word result) :: byte) = 0"
    and d: "(ucast (drop_bit 8 (status_word result)) :: byte) = ucast result"
    by (simp_all add: le_bytes_def)
  have e: "(if result = LUA_OK then (ucast result :: byte) = 0
          else if unat result < 256 then (ucast result :: byte) \<noteq> 0
          else ((ucast result :: byte) = 0) = (result AND 0xff = 0))"
    using ucast_small_nonzero [of result] ucast_status_zero_iff [of result]
    by (auto simp: LUA_OK_def unat_gt_0)
  from a b c d e show ?thesis by blast
qed

text \<open>
  C1, as the claim has it, fails: the payload \<^verbatim>\<open>error("boom")\<close> ends with the
  status 2, and the word written for it is \<^verbatim>\<open>0x200\<close>, whose low byte is 0.
\<close>

theorem status_low_byte_counterexample:
  "fst (dostring lua_example (boom @ [0]) ''chunk''
          (luaL_newstate (request_boom\<lparr>crfd := [], drfd := []\<rparr>))) = 2
   \<and> (2 :: 32 word) \<noteq> LUA_OK
   \<and> trace (final (fuzz_iteration lua_example ''lua'' request_boom)) =
     [LuaL_newstate, Stdout [], Stderr ''lua: '', Stderr ''boom\<newline>'',
      Lua_close, Fflush_stdout, Fflush_stderr, Write_cwfd (le_bytes (status_word 2)) 4,
      Reset_edgeguards]
   \<and> le_bytes (status_word 2) = [0, 2, 0, 0]
   \<and> (ucast (status_word 2) :: byte) = 0"
proof -
  have nw: "next_write request_boom = 4"
    by (simp add: next_write_def request_boom_def)
  from iteration_outcome [OF example_receive example_newstate example_init example_run,
      of "''lua''"]
  have "trace (final (fuzz_iteration lua_example ''lua'' request_boom)) =
     [LuaL_newstate, Stdout [], Stderr ''lua: '', Stderr ''boom\<newline>'',
      Lua_close, Fflush_stdout, Fflush_stderr, Write_cwfd (le_bytes (status_word 2)) 4,
      Reset_edgeguards]"
    by (simp add: nw) (simp add: luaL_newstate_def log_def request_boom_def)
  moreover have "le_bytes (status_word 2) = [0, 2, 0, 0]"
    by (simp add: status_word_bytes)
  moreover have "(ucast (status_word 2) :: byte) = 0"
    by (simp add: status_word_def)
  ultimately show ?thesis
    by (simp add: example_run LUA_OK_def)
qed

theorem status_word_second_byte_witness:
  "(\<exists>tail. trace (final (fuzz_iteration lua_example ''lua'' request_boom)) =
      [LuaL_newstate, Stdout [], Stderr ''lua: '', Stderr ''boom\<newline>'',
       Lua_close, Fflush_stdout, Fflush_stderr, Write_cwfd [0, 2, 0, 0] 4] @ tail)
   \<and> (ucast (drop_bit 8 (status_word 2)) :: byte) = 2"
proof -
  have nw: "next_write request_boom = 4"
    by (simp add: next_write_def request_boom_def)
  from status_word_second_byte [OF example_receive example_newstate example_init example_run,
      of "''lua''"]
  show ?thesis
    by (simp add: nw) (simp add: luaL_newstate_def log_def request_boom_def)
qed

lemma dostring_failed:
  assumes "dostring lua s name w = (result, w')" and "result \<noteq> LUA_OK"
  shows "result = (if fst (luaL_loadbuffer lua (strlen_prefix s) name) = LUA_OK
                   then fst (lua_pcall lua (Buffer (strlen_prefix s) name))
                   else fst (luaL_loadbuffer lua (strlen_prefix s) name))"
    and "trace w' = trace w @
           (if fst (luaL_loadbuffer lua (strlen_prefix s) name) = LUA_OK
            then [Stdout (snd (snd (lua_pcall lua (Buffer (strlen_prefix s) name)))),
                  Stderr (progname @ '': ''),
                  Stderr (fst (snd (lua_pcall lua (Buffer (strlen_prefix s) name))) @ ''\<newline>'')]
            else [Stderr (progname @ '': ''),
                  Stderr (snd (luaL_loadbuffer lua (strlen_prefix s) name) @ ''\<newline>'')])"
  using assms
  by (auto simp: dostring_def dochunk_def report_trace log_def split: prod.splits if_splits)

lemma loop_unfold:
  "fuzz_iteration lua argv0 w = Inr w' \<Longrightarrow>
   do_Fuzzing_loop lua argv0 w =
     (case fuzz_iteration lua argv0 w' of
        Inl e \<Rightarrow> e
      | Inr w'' \<Rightarrow> do_Fuzzing_loop lua argv0 w'')"
  by (simp add: do_Fuzzing_loop.simps [of lua argv0 w] do_Fuzzing_loop.simps [of lua argv0 w'])

lemma iteration_descriptors:
  assumes rs: "receive_script w = Inr (script, w1)"
    and ns: "\<not> luaL_newstate_null lua"
    and init: "handle_luainit lua (luaL_newstate w1) = (LUA_OK, w2)"
    and run: "dostring lua script ''chunk'' w2 = (result, w3)"
  shows "crfd (final (fuzz_iteration lua argv0 w)) = crfd w1"
    and "drfd (final (fuzz_iteration lua argv0 w)) = drfd w1"
proof -
  from handle_luainit_frame [of lua "luaL_newstate w1"] init
  obtain e2 where f2: "w2 = (luaL_newstate w1)\<lparr>trace := trace (luaL_newstate w1) @ e2\<rparr>"
    by auto
  from dostring_frame [of lua script "''chunk''" w2] run
  obtain e3 where f3: "w3 = w2\<lparr>trace := trace w2 @ e3\<rparr>"
    by auto
  have "crfd w2 = crfd w1" "drfd w2 = drfd w1"
    by (subst f2, simp add: luaL_newstate_def log_def)+
  moreover have "crfd w3 = crfd w2" "drfd w3 = drfd w2"
    by (subst f3, simp)+
  ultimately have c: "crfd w3 = crfd w1" and d: "drfd w3 = drfd w1" by simp_all
  have it: "fuzz_iteration lua argv0 w = send_status result (lua_close w3)"
    using assms by (rule iteration_after_run(1))
  show "crfd (final (fuzz_iteration lua argv0 w)) = crfd w1"
    by (simp add: it send_status_result final_def lua_close_def log_def c)
  show "drfd (final (fuzz_iteration lua argv0 w)) = drfd w1"
    by (simp add: it send_status_result final_def lua_close_def log_def d)
qed

text \<open>
  C7.  When the payload ends with a status other than \<^verbatim>\<open>LUA_OK\<close>, either because
  it did not load (a syntax error) or because its call failed (a runtime error), that
  status is the one the library gave, and the message the library left for it goes to
  \<^verbatim>\<open>stderr\<close> after the program name.  The iteration then closes the state, flushes,
  and writes the status word of the failing status; the write having returned 4, it
  does not exit, and the loop takes its next turn from the world the iteration leaves,
  reading the next request from what the control descriptor held after this one.
\<close>

theorem failed_payload_reported:
  assumes "receive_script w = Inr (script, w1)"
    and "\<not> luaL_newstate_null lua"
    and "handle_luainit lua (luaL_newstate w1) = (LUA_OK, w2)"
    and "dostring lua script ''chunk'' w2 = (result, w3)"
    and "result \<noteq> LUA_OK"
    and "next_write w = 4"
  shows "result = (if fst (luaL_loadbuffer lua (strlen_prefix script) ''chunk'') = LUA_OK
                   then fst (lua_pcall lua (Buffer (strlen_prefix script) ''chunk''))
                   else fst (luaL_loadbuffer lua (strlen_prefix script) ''chunk''))
       \<and> trace w3 = trace w2 @
           (if fst (luaL_loadbuffer lua (strlen_prefix script) ''chunk'') = LUA_OK
            then [Stdout (snd (snd (lua_pcall lua (Buffer (strlen_prefix script) ''chunk'')))),
                  Stderr ''lua: '',
                  Stderr (fst (snd (lua_pcall lua (Buffer (strlen_prefix script) ''chunk'')))
                          @ ''\<newline>'')]
            else [Stderr ''lua: '',
                  Stderr (snd (luaL_loadbuffer lua (strlen_prefix script) ''chunk'')
                          @ ''\<newline>'')])
       \<and> fuzz_iteration lua argv0 w = Inr (final (fuzz_iteration lua argv0 w))
       \<and> trace (final (fuzz_iteration lua argv0 w)) =
           trace w3 @ [Lua_close, Fflush_stdout, Fflush_stderr,
                       Write_cwfd (le_bytes (status_word result)) 4, Reset_edgeguards]
       \<and> crfd (final (fuzz_iteration lua argv0 w)) = crfd w1
       \<and> do_Fuzzing_loop lua argv0 w =
           (case fuzz_iteration lua argv0 (final (fuzz_iteration lua argv0 w)) of
              Inl e \<Rightarrow> e
            | Inr w'' \<Rightarrow> do_Fuzzing_loop lua argv0 w'')"
proof -
  note d = dostring_failed [OF assms(4) assms(5)]
  from d(1) have a: "result = (if fst (luaL_loadbuffer lua (strlen_prefix script) ''chunk'') = LUA_OK
                   then fst (lua_pcall lua (Buffer (strlen_prefix script) ''chunk''))
                   else fst (luaL_loadbuffer lua (strlen_prefix script) ''chunk''))" .
  from d(2) have b: "trace w3 = trace w2 @
           (if fst (luaL_loadbuffer lua (strlen_prefix script) ''chunk'') = LUA_OK
            then [Stdout (snd (snd (lua_pcall lua (Buffer (strlen_prefix script) ''chunk'')))),
                  Stderr ''lua: '',
                  Stderr (fst (snd (lua_pcall lua (Buffer (strlen_prefix script) ''chunk'')))
                          @ ''\<newline>'')]
            else [Stderr ''lua: '',
                  Stderr (snd (luaL_loadbuffer lua (strlen_prefix script) ''chunk'')
                          @ ''\<newline>'')])"
    by (simp add: progname_def)
  from iteration_outcome [OF assms(1-4), of argv0] assms(6)
  have t: "trace (final (fuzz_iteration lua argv0 w)) =
             trace w3 @ [Lua_close, Fflush_stdout, Fflush_stderr,
                  Write_cwfd (le_bytes (status_word result)) 4, Reset_edgeguards]"
    and c: "fuzz_iteration lua argv0 w = Inr (final (fuzz_iteration lua argv0 w))"
    by simp_all
  have f: "crfd (final (fuzz_iteration lua argv0 w)) = crfd w1"
    using assms(1-4) by (rule iteration_descriptors(1))
  from loop_unfold [OF c]
  have l: "do_Fuzzing_loop lua argv0 w =
           (case fuzz_iteration lua argv0 (final (fuzz_iteration lua argv0 w)) of
              Inl e \<Rightarrow> e
            | Inr w'' \<Rightarrow> do_Fuzzing_loop lua argv0 w'')" .
  from a b c t f l show ?thesis by (intro conjI)
qed

lemma example_receive_first:
  "receive_script requests_boom_empty =
   Inr (boom @ [0],
        requests_boom_empty\<lparr>crfd := [Data [0x65, 0x78, 0x65, 0x63, 0, 0, 0, 0, 0, 0, 0, 0]],
                             drfd := []\<rparr>)"
  by (simp add: requests_boom_empty_def boom_def receive_script_def read_request_def read_crfd_def
      CHECK_def cexe_def load_script_def alloc_script_def read_drfd_def store_def
      read_script.simps sys_read_def SSIZE_MAX_def)

lemma example_run_empty:
  "dostring lua_example [0] ''chunk'' w = (LUA_OK, w\<lparr>trace := trace w @ [Stdout []]\<rparr>)"
  by (simp add: dostring_def dochunk_def strlen_prefix_def boom_def lua_example_def LUA_OK_def
      report_trace log_def)

lemma example_reset: "sanitizer_cov_reset_edgeguards [0, 5] = [1, 2]"
  by (simp add: sanitizer_cov_reset_edgeguards_def MAX_EDGES_val)

lemma example_reset': "sanitizer_cov_reset_edgeguards [1, 2] = [1, 2]"
  by (simp add: sanitizer_cov_reset_edgeguards_def MAX_EDGES_val)

lemma example_end_of_requests:
  "crfd w = [] \<Longrightarrow>
   do_Fuzzing_loop lua argv0 w =
   (Exit_minus1, w\<lparr>trace := trace w @ [Stderr (CHECK_text ''read(REPRL_CRFD, &action, 4) == 4'')]\<rparr>)"
  by (simp add: do_Fuzzing_loop.simps [of lua argv0 w] fuzz_iteration_def receive_script_def
      read_request_def read_crfd_def sys_read_def SSIZE_MAX_def CHECK_def log_def)

theorem failed_payload_reported_witness:
  "do_Fuzzing_loop lua_example ''lua'' requests_boom_empty =
   (Exit_minus1,
    \<lparr>crfd = [], drfd = [], cwfd = [], edge_guards = [1, 2], lua_states = 0,
     trace = [LuaL_newstate, Stdout [], Stderr ''lua: '', Stderr ''boom\<newline>'',
              Lua_close, Fflush_stdout, Fflush_stderr, Write_cwfd [0, 2, 0, 0] 4,
              Reset_edgeguards,
              LuaL_newstate, Stdout [],
              Lua_close, Fflush_stdout, Fflush_stderr, Write_cwfd [0, 0, 0, 0] 4,
              Reset_edgeguards,
              Stderr (CHECK_text ''read(REPRL_CRFD, &action, 4) == 4'')],
     malloc_null = (\<lambda>n. False)\<rparr>)"
proof -
  have nw: "next_write requests_boom_empty = 4"
    by (simp add: next_write_def requests_boom_empty_def)
  have ne: "(2 :: 32 word) \<noteq> LUA_OK"
    by (simp add: LUA_OK_def)
  note t = failed_payload_reported [OF example_receive_first example_newstate example_init
      example_run ne nw, of "''lua''"]
  let ?w1 = "\<lparr>crfd = [Data [0x65, 0x78, 0x65, 0x63, 0, 0, 0, 0, 0, 0, 0, 0]], drfd = [],
      cwfd = [4], edge_guards = [1, 2], lua_states = 0,
      trace = [LuaL_newstate, Stdout [], Stderr ''lua: '', Stderr ''boom\<newline>'',
              Lua_close, Fflush_stdout, Fflush_stderr, Write_cwfd [0, 2, 0, 0] 4,
              Reset_edgeguards],
      malloc_null = (\<lambda>n. False)\<rparr>"
  have first: "fuzz_iteration lua_example ''lua'' requests_boom_empty = Inr ?w1"
    by (simp add: fuzz_iteration_def example_receive_first run_script_def example_newstate
        example_init example_run after_dostring Let_def send_status_result example_reset
        status_word_bytes)
       (simp add: requests_boom_empty_def luaL_newstate_def lua_close_def log_def next_write_def
          example_reset)
  then have fin: "final (fuzz_iteration lua_example ''lua'' requests_boom_empty) = ?w1"
    by (simp add: final_def)
  let ?w2 = "\<lparr>crfd = [], drfd = [],
      cwfd = [], edge_guards = [1, 2], lua_states = 0,
      trace = [LuaL_newstate, Stdout [], Stderr ''lua: '', Stderr ''boom\<newline>'',
              Lua_close, Fflush_stdout, Fflush_stderr, Write_cwfd [0, 2, 0, 0] 4,
              Reset_edgeguards,
              LuaL_newstate, Stdout [],
              Lua_close, Fflush_stdout, Fflush_stderr, Write_cwfd [0, 0, 0, 0] 4,
              Reset_edgeguards],
      malloc_null = (\<lambda>n. False)\<rparr>"
  have recv: "receive_script ?w1 = Inr ([0], ?w1\<lparr>crfd := []\<rparr>)"
    by (simp add: receive_script_def read_request_def read_crfd_def sys_read_def SSIZE_MAX_def
        CHECK_def cexe_def load_script_def alloc_script_def read_script.simps)
  have second: "fuzz_iteration lua_example ''lua'' ?w1 = Inr ?w2"
    by (simp add: fuzz_iteration_def recv run_script_def example_newstate example_init
        example_run_empty after_dostring Let_def send_status_result status_word_bytes)
       (simp add: luaL_newstate_def lua_close_def log_def next_write_def example_reset'
          LUA_OK_def)
  have third: "do_Fuzzing_loop lua_example ''lua'' ?w2 =
     (Exit_minus1, ?w2\<lparr>trace := trace ?w2 @ [Stderr (CHECK_text ''read(REPRL_CRFD, &action, 4) == 4'')]\<rparr>)"
    by (rule example_end_of_requests) simp
  from t have "do_Fuzzing_loop lua_example ''lua'' requests_boom_empty =
           (case fuzz_iteration lua_example ''lua''
                   (final (fuzz_iteration lua_example ''lua'' requests_boom_empty)) of
              Inl e \<Rightarrow> e
            | Inr w'' \<Rightarrow> do_Fuzzing_loop lua_example ''lua'' w'')"
    by blast
  then show ?thesis
    unfolding fin second by (simp add: third)
qed

lemma load_script_zero: "\<not> malloc_null w 1 \<Longrightarrow> load_script 0 w = Inr ([0], w)"
  by (simp add: load_script_def alloc_script_def read_script.simps [of _ 0 0 w])

text \<open>
  C10.  For a request that declares the length 0 the script is received without a read
  on the data descriptor, as the one-byte buffer that holds the terminator; the chunk
  handed to the library is the empty one.  Given that \<^verbatim>\<open>malloc(1)\<close> does not return
  \<^verbatim>\<open>NULL\<close>, that the library loads and runs the empty chunk with \<^verbatim>\<open>LUA_OK\<close>
  (the library is not among the sources), that the state is created and
  \<^verbatim>\<open>LUA_INIT\<close> runs without error, and that the write returns 4, the iteration
  writes the word 0 and does not exit; the data descriptor is as it was, and the loop
  takes its next turn from the world the iteration leaves, reading the next request
  from what the control descriptor held after this one.
\<close>

theorem empty_script_runs:
  assumes "read_request w = Inr (0, w1)"
    and "\<not> malloc_null w 1"
    and "\<not> luaL_newstate_null lua"
    and "handle_luainit lua (luaL_newstate w1) = (LUA_OK, w2)"
    and "luaL_loadbuffer lua [] ''chunk'' = (LUA_OK, msg)"
    and "lua_pcall lua (Buffer [] ''chunk'') = (LUA_OK, msg', printed)"
    and "next_write w = 4"
  shows "receive_script w = Inr ([0], w1)
       \<and> drfd w1 = drfd w
       \<and> fuzz_iteration lua argv0 w = Inr (final (fuzz_iteration lua argv0 w))
       \<and> trace (final (fuzz_iteration lua argv0 w)) =
           trace w2 @ [Stdout printed, Lua_close, Fflush_stdout, Fflush_stderr,
                       Write_cwfd [0, 0, 0, 0] 4, Reset_edgeguards]
       \<and> drfd (final (fuzz_iteration lua argv0 w)) = drfd w
       \<and> crfd (final (fuzz_iteration lua argv0 w)) = crfd w1
       \<and> do_Fuzzing_loop lua argv0 w =
           (case fuzz_iteration lua argv0 (final (fuzz_iteration lua argv0 w)) of
              Inl e \<Rightarrow> e
            | Inr w'' \<Rightarrow> do_Fuzzing_loop lua argv0 w'')"
proof -
  from read_request_frame [OF assms(1)] have fr: "w1 = w\<lparr>crfd := crfd w1\<rparr>" .
  have d1: "drfd w1 = drfd w" and m1: "malloc_null w1 = malloc_null w"
    by (subst fr, simp)+
  have rs: "receive_script w = Inr ([0], w1)"
    using assms(1) assms(2) m1 by (simp add: receive_script_def load_script_zero)
  have run: "dostring lua [0] ''chunk'' w2 = (LUA_OK, w2\<lparr>trace := trace w2 @ [Stdout printed]\<rparr>)"
    using assms(5) assms(6)
    by (simp add: dostring_def dochunk_def strlen_prefix_def report_trace log_def)
  from iteration_outcome [OF rs assms(3) assms(4) run, of argv0] assms(7)
  have t: "trace (final (fuzz_iteration lua argv0 w)) =
             trace w2 @ [Stdout printed, Lua_close, Fflush_stdout, Fflush_stderr,
                  Write_cwfd [0, 0, 0, 0] 4, Reset_edgeguards]"
    and c: "fuzz_iteration lua argv0 w = Inr (final (fuzz_iteration lua argv0 w))"
    by (simp_all add: status_word_bytes LUA_OK_def)
  note ds = iteration_descriptors [OF rs assms(3) assms(4) run, of argv0]
  from ds(2) d1 have d: "drfd (final (fuzz_iteration lua argv0 w)) = drfd w" by simp
  from loop_unfold [OF c]
  have l: "do_Fuzzing_loop lua argv0 w =
           (case fuzz_iteration lua argv0 (final (fuzz_iteration lua argv0 w)) of
              Inl e \<Rightarrow> e
            | Inr w'' \<Rightarrow> do_Fuzzing_loop lua argv0 w'')" .
  from rs d1 c t d ds(1) l show ?thesis by (intro conjI)
qed

lemma example_request_first_empty:
  "read_request requests_empty_boom =
   Inr (0, requests_empty_boom\<lparr>crfd := [Data [0x65, 0x78, 0x65, 0x63, 13, 0, 0, 0, 0, 0, 0, 0]]\<rparr>)"
  by (simp add: requests_empty_boom_def read_request_def read_crfd_def CHECK_def cexe_def
      sys_read_def SSIZE_MAX_def)

theorem empty_script_runs_witness:
  "receive_script requests_empty_boom =
   Inr ([0], requests_empty_boom\<lparr>crfd := [Data [0x65, 0x78, 0x65, 0x63, 13, 0, 0, 0, 0, 0, 0, 0]]\<rparr>)
   \<and> drfd (final (fuzz_iteration lua_example ''lua'' requests_empty_boom)) = [Data boom]
   \<and> do_Fuzzing_loop lua_example ''lua'' requests_empty_boom =
   (Exit_minus1,
    \<lparr>crfd = [], drfd = [], cwfd = [], edge_guards = [1, 2], lua_states = 0,
     trace = [LuaL_newstate, Stdout [],
              Lua_close, Fflush_stdout, Fflush_stderr, Write_cwfd [0, 0, 0, 0] 4,
              Reset_edgeguards,
              LuaL_newstate, Stdout [], Stderr ''lua: '', Stderr ''boom\<newline>'',
              Lua_close, Fflush_stdout, Fflush_stderr, Write_cwfd [0, 2, 0, 0] 4,
              Reset_edgeguards,
              Stderr (CHECK_text ''read(REPRL_CRFD, &action, 4) == 4'')],
     malloc_null = (\<lambda>n. False)\<rparr>)"
proof -
  have nw: "next_write requests_empty_boom = 4"
    by (simp add: next_write_def requests_empty_boom_def)
  have mn: "\<not> malloc_null requests_empty_boom 1"
    by (simp add: requests_empty_boom_def)
  have ld: "luaL_loadbuffer lua_example [] ''chunk'' = (LUA_OK, [])"
    by (simp add: lua_example_def LUA_OK_def)
  have pc: "lua_pcall lua_example (Buffer [] ''chunk'') = (LUA_OK, [], [])"
    by (simp add: lua_example_def LUA_OK_def boom_def)
  note t = empty_script_runs [OF example_request_first_empty mn example_newstate example_init
      ld pc nw, of "''lua''"]
  let ?w1 = "\<lparr>crfd = [Data [0x65, 0x78, 0x65, 0x63, 13, 0, 0, 0, 0, 0, 0, 0]],
      drfd = [Data boom], cwfd = [4], edge_guards = [1, 2], lua_states = 0,
      trace = [LuaL_newstate, Stdout [],
              Lua_close, Fflush_stdout, Fflush_stderr, Write_cwfd [0, 0, 0, 0] 4,
              Reset_edgeguards],
      malloc_null = (\<lambda>n. False)\<rparr>"
  from t have tr: "trace (final (fuzz_iteration lua_example ''lua'' requests_empty_boom)) =
      [LuaL_newstate, Stdout [],
              Lua_close, Fflush_stdout, Fflush_stderr, Write_cwfd [0, 0, 0, 0] 4,
              Reset_edgeguards]"
    by (simp add: luaL_newstate_def log_def requests_empty_boom_def)
  from t have rs: "receive_script requests_empty_boom =
      Inr ([0], requests_empty_boom\<lparr>crfd := [Data [0x65, 0x78, 0x65, 0x63, 13, 0, 0, 0, 0, 0, 0, 0]]\<rparr>)"
    by blast
  from t have dr: "drfd (final (fuzz_iteration lua_example ''lua'' requests_empty_boom)) = [Data boom]"
    by (simp add: requests_empty_boom_def)
  have first: "fuzz_iteration lua_example ''lua'' requests_empty_boom = Inr ?w1"
    by (simp add: fuzz_iteration_def rs run_script_def example_newstate example_init
        example_run_empty after_dostring Let_def send_status_result status_word_bytes)
       (simp add: requests_empty_boom_def luaL_newstate_def lua_close_def log_def next_write_def
          example_reset LUA_OK_def)
  then have fin: "final (fuzz_iteration lua_example ''lua'' requests_empty_boom) = ?w1"
    by (simp add: final_def)
  let ?w2 = "\<lparr>crfd = [], drfd = [],
      cwfd = [], edge_guards = [1, 2], lua_states = 0,
      trace = [LuaL_newstate, Stdout [],
              Lua_close, Fflush_stdout, Fflush_stderr, Write_cwfd [0, 0, 0, 0] 4,
              Reset_edgeguards,
              LuaL_newstate, Stdout [], Stderr ''lua: '', Stderr ''boom\<newline>'',
              Lua_close, Fflush_stdout, Fflush_stderr, Write_cwfd [0, 2, 0, 0] 4,
              Reset_edgeguards],
      malloc_null = (\<lambda>n. False)\<rparr>"
  have recv: "receive_script ?w1 = Inr (boom @ [0], ?w1\<lparr>crfd := [], drfd := []\<rparr>)"
    by (simp add: boom_def receive_script_def read_request_def read_crfd_def
      CHECK_def cexe_def load_script_def alloc_script_def read_drfd_def store_def
      read_script.simps sys_read_def SSIZE_MAX_def)
  have second: "fuzz_iteration lua_example ''lua'' ?w1 = Inr ?w2"
    by (simp add: fuzz_iteration_def recv run_script_def example_newstate example_init
        example_run after_dostring Let_def send_status_result status_word_bytes)
       (simp add: luaL_newstate_def lua_close_def log_def next_write_def example_reset')
  have third: "do_Fuzzing_loop lua_example ''lua'' ?w2 =
     (Exit_minus1, ?w2\<lparr>trace := trace ?w2 @ [Stderr (CHECK_text ''read(REPRL_CRFD, &action, 4) == 4'')]\<rparr>)"
    by (rule example_end_of_requests) simp
  from t have "do_Fuzzing_loop lua_example ''lua'' requests_empty_boom =
           (case fuzz_iteration lua_example ''lua''
                   (final (fuzz_iteration lua_example ''lua'' requests_empty_boom)) of
              Inl e \<Rightarrow> e
            | Inr w'' \<Rightarrow> do_Fuzzing_loop lua_example ''lua'' w'')"
    by blast
  then have "do_Fuzzing_loop lua_example ''lua'' requests_empty_boom =
   (Exit_minus1, ?w2\<lparr>trace := trace ?w2 @ [Stderr (CHECK_text ''read(REPRL_CRFD, &action, 4) == 4'')]\<rparr>)"
    unfolding fin second by (simp add: third)
  with rs dr show ?thesis by simp
qed

end
